theory Spec2Isabelle
  imports Complex_Main "HOL-Library.AList"
begin

text \<open>
  The loading and normalizing core of the alumni dashboard: \<open>load_data\<close>,
  \<open>clean_data\<close>, \<open>get_decade_label\<close> (utils.py), \<open>load_default_data\<close>
  (wow_analysis_app.py), \<open>get_decade\<close> (attendance_analysis.py) and the two
  \<open>standardize_wealth_range\<close> functions (giving_analysis.py, targeting_analysis.py),
  as functions of HOL, with the statements C1 to C10 about them.
\<close>

section \<open>Python text\<close>

text \<open>
  A Python \<open>str\<close> is modelled as a HOL string, the UTF-8 bytes of the text; the one
  non-ASCII literal of the source, U+2212 (minus sign), is written as its three bytes.
  The functions of this section are the ASCII readings of the methods of \<open>str\<close>: they
  are what Python computes on a text without a character outside ASCII. Where the source
  depends on what Python does with other text (the decade functions), that is an input of
  the model, see \<open>platform\<close> below.
\<close>

definition ascii :: "string \<Rightarrow> bool" where
  \<comment> \<open>\<open>s.isascii()\<close>\<close>
  "ascii s = list_all (\<lambda>c. (of_char c :: nat) < 128) s"

definition is_space :: "char \<Rightarrow> bool" where
  \<comment> \<open>the ASCII characters for which \<open>str.isspace\<close> holds\<close>
  "is_space c = (let n = (of_char c :: nat) in (9 \<le> n \<and> n \<le> 13) \<or> (28 \<le> n \<and> n \<le> 32))"

definition is_digit :: "char \<Rightarrow> bool" where
  "is_digit c = (let n = (of_char c :: nat) in 48 \<le> n \<and> n \<le> 57)"

definition strip :: "string \<Rightarrow> string" where
  \<comment> \<open>\<open>s.strip()\<close>\<close>
  "strip s = rev (dropWhile is_space (rev (dropWhile is_space s)))"

definition upper_char :: "char \<Rightarrow> char" where
  "upper_char c = (let n = (of_char c :: nat) in if 97 \<le> n \<and> n \<le> 122 then char_of (n - 32) else c)"

definition lower_char :: "char \<Rightarrow> char" where
  "lower_char c = (let n = (of_char c :: nat) in if 65 \<le> n \<and> n \<le> 90 then char_of (n + 32) else c)"

definition upper :: "string \<Rightarrow> string" where
  \<comment> \<open>\<open>s.upper()\<close>\<close>
  "upper s = map upper_char s"

definition lower :: "string \<Rightarrow> string" where
  \<comment> \<open>\<open>s.lower()\<close>\<close>
  "lower s = map lower_char s"

fun starts_with :: "string \<Rightarrow> string \<Rightarrow> bool" where
  "starts_with [] s = True"
| "starts_with (p # ps) [] = False"
| "starts_with (p # ps) (c # cs) = (p = c \<and> starts_with ps cs)"

fun py_in :: "string \<Rightarrow> string \<Rightarrow> bool" where
  \<comment> \<open>\<open>p in s\<close> on strings: \<open>p\<close> occurs in \<open>s\<close> as a contiguous piece\<close>
  "py_in p [] = (p = [])"
| "py_in p (c # cs) = (starts_with p (c # cs) \<or> py_in p cs)"

function py_replace :: "string \<Rightarrow> string \<Rightarrow> string \<Rightarrow> string" where
  \<comment> \<open>\<open>s.replace(old, new)\<close> for a non-empty \<open>old\<close> (the only use in the source):
      occurrences are replaced from the left, without overlap\<close>
  "py_replace old new [] = []"
| "py_replace old new (c # cs) =
     (if old \<noteq> [] \<and> starts_with old (c # cs)
      then new @ py_replace old new (drop (length old) (c # cs))
      else c # py_replace old new cs)"
  by pat_completeness auto
termination
  by (relation "measure (\<lambda>(old, new, s). length s)") auto

definition isdigit :: "string \<Rightarrow> bool" where
  \<comment> \<open>\<open>s.isdigit()\<close>: non-empty and digits only\<close>
  "isdigit s = (s \<noteq> [] \<and> list_all is_digit s)"

definition digit_char :: "nat \<Rightarrow> char" where
  "digit_char d = char_of (48 + d)"

function show_nat :: "nat \<Rightarrow> string" where
  "show_nat n = (if n < 10 then [digit_char n] else show_nat (n div 10) @ [digit_char (n mod 10)])"
  by pat_completeness auto
termination
  by (relation "measure id") auto

declare show_nat.simps [simp del]

definition show_int :: "int \<Rightarrow> string" where
  \<comment> \<open>\<open>str(n)\<close> for a Python \<open>int\<close>\<close>
  "show_int i = (if i < 0 then CHR ''-'' # show_nat (nat (- i)) else show_nat (nat i))"

definition digit_val :: "char \<Rightarrow> nat" where
  "digit_val c = of_char c - 48"

definition read_nat :: "string \<Rightarrow> nat" where
  \<comment> \<open>the number written by a string of digits\<close>
  "read_nat s = foldl (\<lambda>a c. 10 * a + digit_val c) 0 s"

fun split_sign :: "string \<Rightarrow> bool \<times> string" where
  \<comment> \<open>an optional leading sign; \<open>True\<close> for minus\<close>
  "split_sign [] = (False, [])"
| "split_sign (c # cs) =
     (if c = CHR ''-'' then (True, cs) else if c = CHR ''+'' then (False, cs) else (False, c # cs))"

definition int_literal_body :: "string \<Rightarrow> bool" where
  \<comment> \<open>the digits of a Python integer literal: digits, with single underscores allowed
      between digits\<close>
  "int_literal_body b =
     (b \<noteq> [] \<and> is_digit (hd b) \<and> is_digit (last b)
      \<and> list_all (\<lambda>c. is_digit c \<or> c = CHR ''_'') b \<and> \<not> py_in ''__'' b)"

definition py_int_of_str :: "string \<Rightarrow> int option" where
  \<comment> \<open>\<open>int(s)\<close> for an ASCII string: \<open>None\<close> stands for \<open>ValueError\<close>\<close>
  "py_int_of_str s =
     (case split_sign (strip s) of (neg, b) \<Rightarrow>
        if int_literal_body b
        then Some ((if neg then - 1 else 1) * int (read_nat (filter (\<lambda>c. c \<noteq> CHR ''_'') b)))
        else None)"

section \<open>Cell values\<close>

text \<open>
  A timestamp is given by its calendar fields, at a resolution of one second.
\<close>

datatype timestamp = Timestamp (ts_year: nat) (ts_month: nat) (ts_day: nat)
  (ts_hour: nat) (ts_minute: nat) (ts_second: nat)

definition pad :: "nat \<Rightarrow> nat \<Rightarrow> string" where
  \<comment> \<open>\<open>n\<close> in decimal, filled with zeros on the left to width \<open>w\<close>\<close>
  "pad w n = replicate (w - length (show_nat n)) CHR ''0'' @ show_nat n"

definition date_str :: "timestamp \<Rightarrow> string" where
  "date_str t = pad 4 (ts_year t) @ ''-'' @ pad 2 (ts_month t) @ ''-'' @ pad 2 (ts_day t)"

definition timestamp_str :: "timestamp \<Rightarrow> string" where
  \<comment> \<open>\<open>str(t)\<close> for a \<open>Timestamp\<close>: \<open>2021-03-04 00:00:00\<close>\<close>
  "timestamp_str t =
     date_str t @ '' '' @ pad 2 (ts_hour t) @ '':'' @ pad 2 (ts_minute t) @ '':'' @ pad 2 (ts_second t)"

definition days_from_civil :: "timestamp \<Rightarrow> int" where
  \<comment> \<open>days from 1970-01-01 to the date of the timestamp (proleptic Gregorian calendar)\<close>
  "days_from_civil t =
     (let m = int (ts_month t);
          y = int (ts_year t) - (if m \<le> 2 then 1 else 0);
          era = y div 400;
          yoe = y - era * 400;
          doy = (153 * (if m > 2 then m - 3 else m + 9) + 2) div 5 + int (ts_day t) - 1;
          doe = yoe * 365 + yoe div 4 - yoe div 100 + doy
      in era * 146097 + doe - 719468)"

definition epoch_ns :: "timestamp \<Rightarrow> int" where
  \<comment> \<open>nanoseconds since 1970-01-01 00:00:00, the integer a \<open>datetime64[ns]\<close> value holds\<close>
  "epoch_ns t =
     (((days_from_civil t * 24 + int (ts_hour t)) * 60 + int (ts_minute t)) * 60
        + int (ts_second t)) * 1000000000"

text \<open>
  One cell of a table as \<open>pd.read_excel\<close> delivers it: missing (\<open>NaN\<close>), a Python
  \<open>int\<close>, a \<open>float\<close>, a \<open>str\<close> or a timestamp. A float is the real number it
  denotes: rounding and infinities are outside the model. A Python \<open>int\<close> is unbounded;
  the integers of an \<open>int64\<close> column have 64 bits, and arithmetic on them wraps around.
\<close>

datatype cell = NaN | IntV int | FloatV real | StrV string | TsV timestamp

definition in_int64 :: "int \<Rightarrow> bool" where
  "in_int64 n = (- (2 ^ 63) \<le> n \<and> n < 2 ^ 63)"

definition wrap64 :: "int \<Rightarrow> int" where
  \<comment> \<open>the 64-bit signed integer that an integer result is stored as\<close>
  "wrap64 n = (n + 2 ^ 63) mod 2 ^ 64 - 2 ^ 63"

definition isna :: "cell \<Rightarrow> bool" where
  \<comment> \<open>\<open>pd.isna(x)\<close> on a scalar\<close>
  "isna c = (c = NaN)"

definition trunc :: "real \<Rightarrow> int" where
  \<comment> \<open>\<open>int(x)\<close> for a float: rounding towards zero\<close>
  "trunc r = (if 0 \<le> r then \<lfloor>r\<rfloor> else \<lceil>r\<rceil>)"

fun frac_digits :: "nat \<Rightarrow> real \<Rightarrow> string" where
  \<comment> \<open>the decimal digits of a fraction \<open>0 \<le> r < 1\<close>, at most \<open>k\<close> of them\<close>
  "frac_digits 0 r = []"
| "frac_digits (Suc k) r =
     (if r = 0 then []
      else digit_char (nat \<lfloor>10 * r\<rfloor>) # frac_digits k (10 * r - of_int \<lfloor>10 * r\<rfloor>))"

definition show_float :: "real \<Rightarrow> string" where
  \<comment> \<open>\<open>str(x)\<close> for a float in positional notation: \<open>102.0\<close>, \<open>12.5\<close>, \<open>-0.25\<close>.
      Python switches to exponent notation below \<open>1e-4\<close> and from \<open>1e16\<close> on; those
      magnitudes are outside the model.\<close>
  "show_float r =
     (let a = \<bar>r\<bar>; ip = \<lfloor>a\<rfloor>; fd = frac_digits 17 (a - of_int ip)
      in (if r < 0 then ''-'' else '''') @ show_nat (nat ip) @ ''.'' @ (if fd = [] then ''0'' else fd))"

fun py_str :: "cell \<Rightarrow> string" where
  \<comment> \<open>\<open>str(x)\<close>\<close>
  "py_str NaN = ''nan''"
| "py_str (IntV n) = show_int n"
| "py_str (FloatV r) = show_float r"
| "py_str (StrV s) = s"
| "py_str (TsV t) = timestamp_str t"

text \<open>
  What Python and pandas do where this development does not fix it is an input of the
  model, the platform \<open>P\<close>: how pandas reads one value as a timestamp (\<open>parse_date\<close>,
  \<open>None\<close> where the value is coerced to NaT), and what \<open>int\<close>, \<open>strip\<close>, \<open>isdigit\<close>
  and \<open>len\<close> make of a text with a character outside ASCII, which the Unicode tables of
  the Python runtime decide. On ASCII text the four are the functions of the first
  section.
\<close>

record platform =
  parse_date :: "cell \<Rightarrow> timestamp option"
  int_text :: "string \<Rightarrow> int option"
  strip_text :: "string \<Rightarrow> string"
  isdigit_text :: "string \<Rightarrow> bool"
  len_text :: "string \<Rightarrow> nat"

definition int_of_text :: "platform \<Rightarrow> string \<Rightarrow> int option" where
  \<comment> \<open>\<open>int(s)\<close> for a string: \<open>None\<close> stands for \<open>ValueError\<close>\<close>
  "int_of_text P s = (if ascii s then py_int_of_str s else int_text P s)"

definition strip_of_text :: "platform \<Rightarrow> string \<Rightarrow> string" where
  \<comment> \<open>\<open>s.strip()\<close>\<close>
  "strip_of_text P s = (if ascii s then strip s else strip_text P s)"

definition isdigit_of_text :: "platform \<Rightarrow> string \<Rightarrow> bool" where
  \<comment> \<open>\<open>s.isdigit()\<close>\<close>
  "isdigit_of_text P s = (if ascii s then isdigit s else isdigit_text P s)"

definition len_of_text :: "platform \<Rightarrow> string \<Rightarrow> nat" where
  \<comment> \<open>\<open>len(s)\<close>, the number of characters\<close>
  "len_of_text P s = (if ascii s then length s else len_text P s)"

fun py_int :: "platform \<Rightarrow> cell \<Rightarrow> int option" where
  \<comment> \<open>\<open>int(x)\<close>; \<open>None\<close> stands for the \<open>ValueError\<close> or \<open>TypeError\<close> it raises\<close>
  "py_int P NaN = None"
| "py_int P (IntV n) = Some n"
| "py_int P (FloatV r) = Some (trunc r)"
| "py_int P (StrV s) = int_of_text P s"
| "py_int P (TsV t) = None"

section \<open>Decade labels\<close>

definition decade_of_int :: "int \<Rightarrow> string" where
  \<comment> \<open>\<open>decade = (year_int // 10) * 10; f"{decade}s"\<close>\<close>
  "decade_of_int y = show_int ((y div 10) * 10) @ ''s''"

definition capped_decade :: "int \<Rightarrow> string" where
  \<comment> \<open>the three-way branch of \<open>get_decade\<close> on \<open>year_int\<close>\<close>
  "capped_decade y =
     (if y < 1950 then ''Pre-1950s''
      else if y \<ge> 2020 then ''2020s''
      else decade_of_int y)"

text \<open>
  An exception is represented by its message.
\<close>

datatype exn = Exn (message: string)

definition invalid_literal :: exn where
  \<comment> \<open>the \<open>ValueError\<close> of \<open>int\<close> on a text that it does not read\<close>
  "invalid_literal = Exn ''ValueError: invalid literal for int() with base 10''"

definition get_decade :: "platform \<Rightarrow> cell \<Rightarrow> exn + string" where
  \<comment> \<open>\<open>get_decade\<close> of the attendance-by-decade analysis (attendance_analysis.py);
      \<open>Inl e\<close> where it raises: the \<open>int\<close> calls of the handler are not guarded\<close>
  "get_decade P year =
     (if isna year then Inr ''Unknown''
      else case py_int P year of
        Some year_int \<Rightarrow> Inr (capped_decade year_int)
      | None \<Rightarrow>
          \<comment> \<open>\<open>except (ValueError, TypeError)\<close>: string parsing as fallback\<close>
          (let year_str = strip_of_text P (py_str year) in
           if isdigit_of_text P year_str \<and> len_of_text P year_str = 4
           then (case int_of_text P year_str of
                   None \<Rightarrow> Inl invalid_literal
                 | Some year_int \<Rightarrow> Inr (capped_decade year_int))
           else if isdigit_of_text P year_str \<and> len_of_text P year_str = 2
           then (case int_of_text P year_str of
                   None \<Rightarrow> Inl invalid_literal
                 | Some year_int \<Rightarrow>
                     Inr (if year_int \<ge> 50
                          then show_int (1900 + (year_int div 10) * 10) @ ''s''
                          else show_int (2000 + (year_int div 10) * 10) @ ''s''))
           else Inr ''Unknown''))"

definition get_decade_label :: "platform \<Rightarrow> cell \<Rightarrow> string" where
  \<comment> \<open>\<open>get_decade_label\<close> of utils.py; the bare \<open>except\<close> turns a failed \<open>int(year)\<close>
      into "Unknown"\<close>
  "get_decade_label P year =
     (if isna year then ''Unknown''
      else case py_int P year of
        Some y \<Rightarrow> decade_of_int y
      | None \<Rightarrow> ''Unknown'')"

section \<open>Wealth ranges\<close>

definition minus_sign :: string where
  \<comment> \<open>U+2212 in UTF-8\<close>
  "minus_sign = [CHR 0xE2, CHR 0x88, CHR 0x92]"

definition standardize_wealth_range_giving :: "cell \<Rightarrow> string" where
  \<comment> \<open>\<open>standardize_wealth_range\<close> inside \<open>wealth_range_distribution\<close> (giving_analysis.py)\<close>
  "standardize_wealth_range_giving we_range0 =
     (if isna we_range0 then ''Unknown''
      else let we_range = upper (strip (py_str we_range0)) in
        if py_in ''UNDER'' we_range \<or> py_in ''<'' we_range then ''Under $100K''
        else if py_in ''100K-250K'' we_range \<or> py_in ''100-250'' we_range then ''$100K-$250K''
        else if py_in ''250K-500K'' we_range \<or> py_in ''250-500'' we_range then ''$250K-$500K''
        else if py_in ''500K-1M'' we_range \<or> py_in ''500-1000'' we_range then ''$500K-$1M''
        else if py_in ''1M-5M'' we_range \<or> py_in ''1000-5000'' we_range then ''$1M-$5M''
        else if py_in ''5M+'' we_range \<or> py_in ''>5M'' we_range \<or> py_in ''OVER 5M'' we_range
             then ''Over $5M''
        else ''Unknown'')"

definition standardize_wealth_range_targeting :: "cell \<Rightarrow> string" where
  \<comment> \<open>\<open>standardize_wealth_range\<close> inside \<open>high_capacity_prospects\<close> (targeting_analysis.py)\<close>
  "standardize_wealth_range_targeting we_range0 =
     (if isna we_range0 then ''Unknown''
      else let we_range1 = upper (strip (py_str we_range0));
               we_range = py_replace minus_sign ''-'' (py_replace [CHR 0x0A] '''' we_range1) in
        if py_in ''5,000,000+'' we_range \<or> py_in ''5M+'' we_range then ''Over $5M''
        else if py_in ''1,000,000-4,999,999'' we_range \<or> py_in ''1M-5M'' we_range then ''$1M-$5M''
        else if py_in ''500,000-999,999'' we_range \<or> py_in ''500K-1M'' we_range then ''$500K-$1M''
        else if py_in ''250,000-499,999'' we_range \<or> py_in ''250K-500K'' we_range then ''$250K-$500K''
        else if py_in ''100,000-249,999'' we_range \<or> py_in ''100K-250K'' we_range then ''$100K-$250K''
        else if py_in ''50,000-99,999'' we_range \<or> py_in ''50K-100K'' we_range then ''$50K-$100K''
        else ''Under $50K'')"

definition wealth_vocabulary :: "string set" where
  \<comment> \<open>the seven wealth buckets\<close>
  "wealth_vocabulary = {''Under $50K'', ''$50K-$100K'', ''$100K-$250K'', ''$250K-$500K'',
     ''$500K-$1M'', ''$1M-$5M'', ''Over $5M''}"

section \<open>Messages on the page\<close>

text \<open>
  The messages of \<open>st.warning\<close> and \<open>st.error\<close> are collected in the state of the page.
\<close>

record ui =
  warnings :: "string list"
  errors :: "string list"

definition st_warning :: "string \<Rightarrow> 'a ui_scheme \<Rightarrow> 'a ui_scheme" where
  "st_warning msg u = u\<lparr>warnings := warnings u @ [msg]\<rparr>"

definition st_error :: "string \<Rightarrow> 'a ui_scheme \<Rightarrow> 'a ui_scheme" where
  "st_error msg u = u\<lparr>errors := errors u @ [msg]\<rparr>"

section \<open>Columns and the pandas operations used by the normalizer\<close>

text \<open>
  A column is its dtype together with its values: \<open>int64\<close> holds integers, \<open>float64\<close>
  holds floats or NaN, \<open>datetime64[ns]\<close> holds timestamps or NaT, and \<open>object\<close> holds
  arbitrary cells. A table is the list of its named columns, in column order; the row
  index is not modelled.

  The operations are those of pandas 2, where a text column has dtype \<open>object\<close>. Column
  names are texts.
\<close>

datatype column =
    Int64 "int list"
  | Float64 "real option list"
  | Datetime "timestamp option list"
  | Object "cell list"

datatype dtype = int64 | float64 | datetime64 | object

fun dtype_of :: "column \<Rightarrow> dtype" where
  \<comment> \<open>\<open>s.dtype\<close>\<close>
  "dtype_of (Int64 ns) = int64"
| "dtype_of (Float64 rs) = float64"
| "dtype_of (Datetime ts) = datetime64"
| "dtype_of (Object cs) = object"

fun col_length :: "column \<Rightarrow> nat" where
  "col_length (Int64 ns) = length ns"
| "col_length (Float64 rs) = length rs"
| "col_length (Datetime ts) = length ts"
| "col_length (Object cs) = length cs"

fun cells_of :: "column \<Rightarrow> cell list" where
  \<comment> \<open>the values of a column as Python objects, as \<open>.apply\<close> sees them\<close>
  "cells_of (Int64 ns) = map IntV ns"
| "cells_of (Float64 rs) = map (\<lambda>r. case r of None \<Rightarrow> NaN | Some x \<Rightarrow> FloatV x) rs"
| "cells_of (Datetime ts) = map (\<lambda>t. case t of None \<Rightarrow> NaN | Some d \<Rightarrow> TsV d) ts"
| "cells_of (Object cs) = cs"

definition is_number :: "cell \<Rightarrow> bool" where
  \<comment> \<open>a number or a missing value\<close>
  "is_number c = (case c of NaN \<Rightarrow> True | IntV n \<Rightarrow> True | FloatV r \<Rightarrow> True
                  | StrV s \<Rightarrow> False | TsV t \<Rightarrow> False)"

definition python_ints :: "cell list \<Rightarrow> int list" where
  "python_ints cs = List.map_filter (\<lambda>c. case c of IntV n \<Rightarrow> Some n | _ \<Rightarrow> None) cs"

definition ints_fit :: "cell list \<Rightarrow> bool" where
  \<comment> \<open>the Python integers of the cells fit one 64-bit type, signed or unsigned\<close>
  "ints_fit cs =
     (list_all (\<lambda>n. - (2 ^ 63) \<le> n \<and> n < 2 ^ 64) (python_ints cs)
      \<and> \<not> (list_ex (\<lambda>n. 2 ^ 63 \<le> n) (python_ints cs) \<and> list_ex (\<lambda>n. n < 0) (python_ints cs)))"

definition as_float :: "cell \<Rightarrow> real option" where
  "as_float c = (case c of IntV n \<Rightarrow> Some (of_int n) | FloatV r \<Rightarrow> Some r | _ \<Rightarrow> None)"

definition infer_objects :: "cell list \<Rightarrow> column" where
  \<comment> \<open>the conversion of an object column after a replacement that put in a NaN: numbers
      and missing values become a \<open>float64\<close> column. Only the conversion of numbers is
      modelled: a column that holds a text or a timestamp is left as it is.\<close>
  "infer_objects cs =
     (if list_all is_number cs \<and> ints_fit cs then Float64 (map as_float cs) else Object cs)"

fun replace_empty :: "column \<Rightarrow> column" where
  \<comment> \<open>\<open>s.replace('', np.nan)\<close>: a column without an empty string is returned as it is;
      after a replacement pandas infers the dtype of an object column again\<close>
  "replace_empty (Object cs) =
     (if StrV [] \<in> set cs
      then infer_objects (map (\<lambda>c. if c = StrV [] then NaN else c) cs)
      else Object cs)"
| "replace_empty (Int64 ns) = Int64 ns"
| "replace_empty (Float64 rs) = Float64 rs"
| "replace_empty (Datetime ts) = Datetime ts"

definition midnight :: "timestamp \<Rightarrow> bool" where
  "midnight d = (ts_hour d = 0 \<and> ts_minute d = 0 \<and> ts_second d = 0)"

fun astype_str :: "column \<Rightarrow> string list" where
  \<comment> \<open>the texts of \<open>s.astype(str)\<close>; a datetime column is rendered without the time of
      day when every value is a midnight\<close>
  "astype_str (Int64 ns) = map show_int ns"
| "astype_str (Float64 rs) = map (\<lambda>r. case r of None \<Rightarrow> ''nan'' | Some x \<Rightarrow> show_float x) rs"
| "astype_str (Datetime ts) =
     (let dates_only = list_all (\<lambda>t. case t of None \<Rightarrow> True | Some d \<Rightarrow> midnight d) ts
      in map (\<lambda>t. case t of None \<Rightarrow> ''NaT''
                   | Some d \<Rightarrow> if dates_only then date_str d else timestamp_str d) ts)"
| "astype_str (Object cs) = map py_str cs"

definition to_str_column :: "column \<Rightarrow> column" where
  \<comment> \<open>\<open>s.astype(str)\<close>\<close>
  "to_str_column c = Object (map StrV (astype_str c))"

definition str_remove :: "string \<Rightarrow> column \<Rightarrow> column" where
  \<comment> \<open>\<open>s.astype(str).str.replace(old, '', regex=False)\<close>\<close>
  "str_remove old c = Object (map (\<lambda>s. StrV (py_replace old [] s)) (astype_str c))"

text \<open>
  \<open>pd.to_numeric(s, errors='coerce')\<close>. A text is a number when it is an optional sign,
  digits with an optional decimal point and an optional exponent, between optional blanks;
  without point and exponent it is an integer. Everything else is coerced to NaN (the
  words that pandas reads as infinities included: the model has no infinite numbers). The
  result is \<open>int64\<close> when every value is an integer of 64 bits, \<open>float64\<close> otherwise
  (the model has no \<open>uint64\<close> columns: integers from \<open>2^63\<close> on are kept as floats).
\<close>

datatype num = NInt int | NFloat real | NNull

definition is_blank :: "char \<Rightarrow> bool" where
  "is_blank c = (let n = (of_char c :: nat) in (9 \<le> n \<and> n \<le> 13) \<or> n = 32)"

fun split_point :: "string \<Rightarrow> bool \<times> string" where
  \<comment> \<open>an optional decimal point\<close>
  "split_point [] = (False, [])"
| "split_point (c # cs) = (if c = CHR ''.'' then (True, cs) else (False, c # cs))"

fun split_exponent :: "string \<Rightarrow> (int option) \<times> string" where
  \<comment> \<open>an optional exponent \<open>e\<close>, sign, digits; \<open>Some 0\<close> and the text unchanged when there
      is none, \<open>None\<close> when the digits are missing\<close>
  "split_exponent [] = (Some 0, [])"
| "split_exponent (c # cs) =
     (if c = CHR ''e'' \<or> c = CHR ''E''
      then (case split_sign cs of (neg, r) \<Rightarrow>
              if takeWhile is_digit r = [] then (None, c # cs)
              else (Some ((if neg then - 1 else 1) * int (read_nat (takeWhile is_digit r))),
                    dropWhile is_digit r))
      else (Some 0, c # cs))"

definition parse_number :: "string \<Rightarrow> num" where
  "parse_number s =
     (case split_sign (dropWhile is_blank s) of (neg, b) \<Rightarrow>
      let ip = takeWhile is_digit b in
      case split_point (dropWhile is_digit b) of (has_point, r1) \<Rightarrow>
      let fp = (if has_point then takeWhile is_digit r1 else []);
          r2 = (if has_point then dropWhile is_digit r1 else r1) in
      case split_exponent r2 of (ex, r3) \<Rightarrow>
      let sgn = (if neg then - 1 else (1::int)) in
      if ip @ fp = [] \<or> dropWhile is_blank r3 \<noteq> [] then NNull
      else case ex of
        None \<Rightarrow> NNull
      | Some e \<Rightarrow>
          if \<not> has_point \<and> r2 = r3 then NInt (sgn * int (read_nat ip))
          else NFloat (of_int (sgn * int (read_nat (ip @ fp))) / 10 ^ length fp
                       * (if e < 0 then 1 / 10 ^ nat (- e) else 10 ^ nat e)))"

fun to_num :: "cell \<Rightarrow> num" where
  "to_num NaN = NNull"
| "to_num (IntV n) = NInt n"
| "to_num (FloatV r) = NFloat r"
| "to_num (StrV s) = parse_number s"
| "to_num (TsV t) = NNull"

fun is_nint :: "num \<Rightarrow> bool" where
  \<comment> \<open>an integer of 64 bits\<close>
  "is_nint (NInt n) = in_int64 n"
| "is_nint (NFloat r) = False"
| "is_nint NNull = False"

fun nint :: "num \<Rightarrow> int" where
  "nint (NInt n) = n"
| "nint (NFloat r) = 0"
| "nint NNull = 0"

fun num_value :: "num \<Rightarrow> real option" where
  "num_value (NInt n) = Some (of_int n)"
| "num_value (NFloat r) = Some r"
| "num_value NNull = None"

definition numeric_column :: "num list \<Rightarrow> column" where
  "numeric_column ns = (if list_all is_nint ns then Int64 (map nint ns) else Float64 (map num_value ns))"

fun to_numeric :: "column \<Rightarrow> column" where
  "to_numeric (Int64 ns) = Int64 ns"
| "to_numeric (Float64 rs) = Float64 rs"
| "to_numeric (Datetime ts) =
     Int64 (map (\<lambda>t. case t of None \<Rightarrow> - (2 ^ 63) | Some d \<Rightarrow> epoch_ns d) ts)"
| "to_numeric (Object cs) = numeric_column (map to_num cs)"

text \<open>
  \<open>pd.to_datetime(s, errors='coerce')\<close>. How pandas reads one text or number as a
  timestamp is not fixed here: it is \<open>parse_date\<close> of the platform.
\<close>

fun to_datetime :: "platform \<Rightarrow> column \<Rightarrow> column" where
  "to_datetime P (Datetime ts) = Datetime ts"
| "to_datetime P (Int64 ns) = Datetime (map (\<lambda>n. parse_date P (IntV n)) ns)"
| "to_datetime P (Float64 rs) =
     Datetime (map (\<lambda>r. case r of None \<Rightarrow> None | Some x \<Rightarrow> parse_date P (FloatV x)) rs)"
| "to_datetime P (Object cs) =
     Datetime (map (\<lambda>c. case c of NaN \<Rightarrow> None | TsV t \<Rightarrow> Some t | _ \<Rightarrow> parse_date P c) cs)"

fun floordiv10_times10 :: "column \<Rightarrow> exn + column" where
  \<comment> \<open>\<open>(s // 10) * 10\<close>; on a column that is not numeric the division raises\<close>
  "floordiv10_times10 (Int64 ns) = Inr (Int64 (map (\<lambda>n. wrap64 ((n div 10) * 10)) ns))"
| "floordiv10_times10 (Float64 rs) =
     Inr (Float64 (map (map_option (\<lambda>r. of_int \<lfloor>r / 10\<rfloor> * 10)) rs))"
| "floordiv10_times10 (Datetime ts) = Inl (Exn ''TypeError: unsupported operand type(s) for //'')"
| "floordiv10_times10 (Object cs) = Inl (Exn ''TypeError: unsupported operand type(s) for //'')"

definition decade_lambda :: "platform \<Rightarrow> cell \<Rightarrow> exn + string" where
  \<comment> \<open>\<open>lambda x: f"{int(x)}s" if not pd.isna(x) else "Unknown"\<close>\<close>
  "decade_lambda P x =
     (if \<not> isna x
      then (case py_int P x of Some n \<Rightarrow> Inr (show_int n @ ''s'')
            | None \<Rightarrow> Inl invalid_literal)
      else Inr ''Unknown'')"

fun apply_all :: "('a \<Rightarrow> exn + 'b) \<Rightarrow> 'a list \<Rightarrow> exn + 'b list" where
  \<comment> \<open>the calls of \<open>f\<close> on the values, in order: the first exception ends them\<close>
  "apply_all f [] = Inr []"
| "apply_all f (x # xs) =
     (case f x of Inl e \<Rightarrow> Inl e
      | Inr y \<Rightarrow> (case apply_all f xs of Inl e \<Rightarrow> Inl e | Inr ys \<Rightarrow> Inr (y # ys)))"

definition apply_text :: "(cell \<Rightarrow> exn + string) \<Rightarrow> column \<Rightarrow> exn + column" where
  \<comment> \<open>\<open>s.apply(f)\<close> for an \<open>f\<close> that returns text: an object column of the results; for a
      column without rows \<open>f\<close> is not called and the result has the dtype of \<open>s\<close>\<close>
  "apply_text f c =
     (if col_length c = 0 then Inr c
      else case apply_all f (cells_of c) of
             Inl e \<Rightarrow> Inl e
           | Inr labels \<Rightarrow> Inr (Object (map StrV labels)))"

fun fillna_unknown :: "column \<Rightarrow> column" where
  \<comment> \<open>\<open>s.fillna('Unknown')\<close>: a numeric or datetime column with a missing value becomes
      an object column\<close>
  "fillna_unknown (Object cs) = Object (map (\<lambda>c. if c = NaN then StrV ''Unknown'' else c) cs)"
| "fillna_unknown (Int64 ns) = Int64 ns"
| "fillna_unknown (Float64 rs) =
     (if None \<in> set rs
      then Object (map (\<lambda>r. case r of None \<Rightarrow> StrV ''Unknown'' | Some x \<Rightarrow> FloatV x) rs)
      else Float64 rs)"
| "fillna_unknown (Datetime ts) =
     (if None \<in> set ts
      then Object (map (\<lambda>t. case t of None \<Rightarrow> StrV ''Unknown'' | Some d \<Rightarrow> TsV d) ts)
      else Datetime ts)"

fun fillna_zero :: "column \<Rightarrow> column" where
  \<comment> \<open>\<open>s.fillna(0)\<close>\<close>
  "fillna_zero (Object cs) = Object (map (\<lambda>c. if c = NaN then IntV 0 else c) cs)"
| "fillna_zero (Int64 ns) = Int64 ns"
| "fillna_zero (Float64 rs) = Float64 (map (\<lambda>r. case r of None \<Rightarrow> Some 0 | Some x \<Rightarrow> Some x) rs)"
| "fillna_zero (Datetime ts) =
     (if None \<in> set ts
      then Object (map (\<lambda>t. case t of None \<Rightarrow> IntV 0 | Some d \<Rightarrow> TsV d) ts)
      else Datetime ts)"

fun int_values :: "column \<Rightarrow> int list option" where
  "int_values (Int64 ns) = Some ns"
| "int_values (Float64 rs) = None"
| "int_values (Datetime ts) = None"
| "int_values (Object cs) = None"

fun float_values :: "column \<Rightarrow> real option list option" where
  \<comment> \<open>the values of a numeric column as floats\<close>
  "float_values (Int64 ns) = Some (map (\<lambda>n. Some (of_int n)) ns)"
| "float_values (Float64 rs) = Some rs"
| "float_values (Datetime ts) = None"
| "float_values (Object cs) = None"

fun sum_rows :: "('a::monoid_add) list list \<Rightarrow> 'a list" where
  \<comment> \<open>the row-wise sum of columns of equal length\<close>
  "sum_rows [] = []"
| "sum_rows [c] = c"
| "sum_rows (c # d # cs) = map2 (+) c (sum_rows (d # cs))"

definition skipna :: "real option \<Rightarrow> real" where
  "skipna r = (case r of None \<Rightarrow> 0 | Some x \<Rightarrow> x)"

definition frame_sum :: "column list \<Rightarrow> exn + column" where
  \<comment> \<open>\<open>df[cols].sum(axis=1, skipna=True)\<close>: an integer column when every summed column is
      one, the sums being 64-bit sums; a float column when all are numeric; a column that
      is not numeric raises\<close>
  "frame_sum cs =
     (case those (map int_values cs) of
        Some nss \<Rightarrow> Inr (Int64 (map wrap64 (sum_rows nss)))
      | None \<Rightarrow>
          (case those (map float_values cs) of
             Some rss \<Rightarrow> Inr (Float64 (map Some (sum_rows (map (map skipna) rss))))
           | None \<Rightarrow> Inl (Exn ''TypeError: unsupported operand type(s) for +'')))"

definition add_columns :: "column \<Rightarrow> column \<Rightarrow> exn + column" where
  \<comment> \<open>\<open>a + b\<close> on two columns\<close>
  "add_columns a b =
     (case (int_values a, int_values b) of
        (Some xs, Some ys) \<Rightarrow> Inr (Int64 (map2 (\<lambda>x y. wrap64 (x + y)) xs ys))
      | _ \<Rightarrow>
          (case (float_values a, float_values b) of
             (Some xs, Some ys) \<Rightarrow>
               Inr (Float64 (map2 (\<lambda>x y. case (x, y) of (Some u, Some v) \<Rightarrow> Some (u + v) | _ \<Rightarrow> None) xs ys))
           | _ \<Rightarrow> Inl (Exn ''TypeError: unsupported operand type(s) for +'')))"

section \<open>The normalizer\<close>

type_synonym table = "(string \<times> column) list"

definition columns :: "table \<Rightarrow> string list" where
  \<comment> \<open>\<open>df.columns\<close>\<close>
  "columns t = map fst t"

definition nrows :: "table \<Rightarrow> nat" where
  \<comment> \<open>the number of rows, read off the first column\<close>
  "nrows t = (case t of [] \<Rightarrow> 0 | (col, c) # rest \<Rightarrow> col_length c)"

definition assign :: "string \<Rightarrow> column \<Rightarrow> table \<Rightarrow> table" where
  \<comment> \<open>\<open>df[col] = c\<close>: an existing column is replaced in place, a new one is added last\<close>
  "assign col c t = AList.update col c t"

definition transform :: "string \<Rightarrow> (column \<Rightarrow> column) \<Rightarrow> table \<Rightarrow> table" where
  \<comment> \<open>\<open>df[col] = f(df[col])\<close> for a column of the table\<close>
  "transform col f t = AList.map_entry col f t"

definition select :: "table \<Rightarrow> string list \<Rightarrow> column list" where
  \<comment> \<open>the columns of \<open>df[cols]\<close>, for names of the table\<close>
  "select t cols = List.map_filter (map_of t) cols"

definition replace_empty_strings :: "table \<Rightarrow> table" where
  \<comment> \<open>\<open>for col in df_clean.columns: df_clean[col] = df_clean[col].replace('', np.nan)\<close>\<close>
  "replace_empty_strings t = fold (\<lambda>col. transform col replace_empty) (columns t) t"

definition id_to_str :: "table \<Rightarrow> table" where
  \<comment> \<open>\<open>if 'ID' in df_clean.columns: df_clean['ID'] = df_clean['ID'].astype(str)\<close>\<close>
  "id_to_str t = (if ''ID'' \<in> set (columns t) then transform ''ID'' to_str_column t else t)"

definition year_cols :: "string list" where
  "year_cols = [''CL YR'', ''SP CL YR'']"

definition years_to_numeric :: "table \<Rightarrow> table" where
  \<comment> \<open>the loop over \<open>year_cols\<close>\<close>
  "years_to_numeric t =
     fold (\<lambda>col t. if col \<in> set (columns t) then transform col to_numeric t else t) year_cols t"

definition date_columns :: "table \<Rightarrow> string list" where
  \<comment> \<open>the list \<open>date_cols\<close>\<close>
  "date_columns t = filter (\<lambda>col. py_in ''Date'' col \<or> py_in ''date'' col) (columns t)"

definition dates_to_datetime :: "platform \<Rightarrow> string list \<Rightarrow> table \<Rightarrow> table" where
  \<comment> \<open>the loop over \<open>date_cols\<close>\<close>
  "dates_to_datetime P date_cols t =
     fold (\<lambda>col t. if col \<in> set (columns t) then transform col (to_datetime P) t else t) date_cols t"

definition amount_columns :: "string list \<Rightarrow> table \<Rightarrow> string list" where
  \<comment> \<open>the list \<open>amount_cols\<close>\<close>
  "amount_columns date_cols t =
     filter (\<lambda>col. (py_in ''Gift'' col \<or> py_in ''Ask'' col) \<and> col \<notin> set date_cols) (columns t)"

definition parse_amounts :: "string \<Rightarrow> table \<Rightarrow> table" where
  \<comment> \<open>the body of the loop over \<open>amount_cols\<close>\<close>
  "parse_amounts col t =
     (if col \<in> set (columns t)
      then (if map_option dtype_of (map_of t col) = Some object
            then (if col = ''WE Range'' \<or> col = ''LT Giving'' then t
                  else transform col to_numeric
                         (transform col (str_remove '','')
                            (transform col (str_remove ''$'') t)))
            else t)
      else t)"

definition amounts_to_numeric :: "string list \<Rightarrow> table \<Rightarrow> table" where
  \<comment> \<open>the loop over \<open>amount_cols\<close>\<close>
  "amounts_to_numeric amount_cols t = fold parse_amounts amount_cols t"

definition derive_decade :: "platform \<Rightarrow> table \<Rightarrow> exn + table" where
  \<comment> \<open>the two assignments to \<open>df_clean['Decade']\<close>\<close>
  "derive_decade P t =
     (case map_of t ''CL YR'' of
        None \<Rightarrow> Inr t
      | Some cl_yr \<Rightarrow>
          (case floordiv10_times10 cl_yr of
             Inl e \<Rightarrow> Inl e
           | Inr decade \<Rightarrow>
               (case apply_text (decade_lambda P) decade of
                  Inl e \<Rightarrow> Inl e
                | Inr labels \<Rightarrow>
                    Inr (assign ''Decade'' labels (assign ''Decade'' decade t)))))"

definition fill_state :: "table \<Rightarrow> table" where
  \<comment> \<open>\<open>if 'State' in df_clean.columns: df_clean['State'] = df_clean['State'].fillna('Unknown')\<close>\<close>
  "fill_state t = (if ''State'' \<in> set (columns t) then transform ''State'' fillna_unknown t else t)"

definition giving_columns :: "string list \<Rightarrow> table \<Rightarrow> string list" where
  \<comment> \<open>the list \<open>giving_cols\<close>\<close>
  "giving_columns date_cols t =
     map fst (filter (\<lambda>(col, c). (py_in ''Gifts'' col \<or> py_in ''Gift'' col)
                        \<and> \<not> py_in ''Pledge'' col
                        \<and> col \<notin> set date_cols
                        \<and> dtype_of c \<noteq> datetime64) t)"

definition fallback_add :: "string \<Rightarrow> table \<Rightarrow> table" where
  \<comment> \<open>the body of the fallback loop; an exception leaves the total as it is\<close>
  "fallback_add col t =
     (case (map_of t ''Total_All_Giving'', map_of t col) of
        (Some total_col, Some c) \<Rightarrow>
          (case add_columns total_col (fillna_zero (to_numeric c)) of
             Inr s \<Rightarrow> assign ''Total_All_Giving'' s t
           | Inl e \<Rightarrow> t)
      | _ \<Rightarrow> t)"

definition total_giving :: "string list \<Rightarrow> table \<Rightarrow> table \<times> string list" where
  \<comment> \<open>the computation of \<open>Total_All_Giving\<close>, with the messages of \<open>st.warning\<close>\<close>
  "total_giving date_cols t =
     (let giving_cols = giving_columns date_cols t in
      if giving_cols \<noteq> []
      then (case frame_sum (select t giving_cols) of
              Inr s \<Rightarrow> (assign ''Total_All_Giving'' s t, [])
            | Inl e \<Rightarrow>
                (fold fallback_add giving_cols
                   (assign ''Total_All_Giving'' (Int64 (replicate (nrows t) 0)) t),
                 [''Could not calculate Total_All_Giving: '' @ message e]))
      else (t, []))"

definition clean_table :: "platform \<Rightarrow> table \<Rightarrow> exn + table \<times> string list" where
  \<comment> \<open>what \<open>clean_data\<close> makes of the copy of its argument: the statements of its body in
      order, \<open>Inl e\<close> where one of them raises\<close>
  "clean_table P df =
     (let t1 = replace_empty_strings df;
          t2 = id_to_str t1;
          t3 = years_to_numeric t2;
          date_cols = date_columns t3;
          t4 = dates_to_datetime P date_cols t3;
          amount_cols = amount_columns date_cols t4;
          t5 = amounts_to_numeric amount_cols t4
      in case derive_decade P t5 of
           Inl e \<Rightarrow> Inl e
         | Inr t6 \<Rightarrow> Inr (total_giving date_cols (fill_state t6)))"

text \<open>
  Tables are objects: the state holds them by address, \<open>df.copy()\<close> allocates a new one,
  and every assignment \<open>df_clean[col] = ...\<close> updates the table at the address of
  \<open>df_clean\<close>.
\<close>

record world = ui +
  frames :: "table list"

definition modify :: "nat \<Rightarrow> (table \<Rightarrow> table) \<Rightarrow> world \<Rightarrow> world" where
  \<comment> \<open>an update in place of the table at address \<open>a\<close>\<close>
  "modify a f w = w\<lparr>frames := (frames w)[a := f (frames w ! a)]\<rparr>"

definition clean_data :: "platform \<Rightarrow> nat \<Rightarrow> world \<Rightarrow> (exn + nat) \<times> world" where
  \<comment> \<open>\<open>clean_data\<close> of utils.py on the table at address \<open>df\<close>; the result is the address of
      the cleaned table\<close>
  "clean_data P df w0 =
     (if length (frames w0) \<le> df
      then (Inl (Exn ''AttributeError: not a DataFrame''), w0)
      else
        let df_clean = length (frames w0);
            w1 = w0\<lparr>frames := frames w0 @ [frames w0 ! df]\<rparr>;
            w2 = modify df_clean replace_empty_strings w1;
            w3 = modify df_clean id_to_str w2;
            w4 = modify df_clean years_to_numeric w3;
            date_cols = date_columns (frames w4 ! df_clean);
            w5 = modify df_clean (dates_to_datetime P date_cols) w4;
            amount_cols = amount_columns date_cols (frames w5 ! df_clean);
            w6 = modify df_clean (amounts_to_numeric amount_cols) w5
        in case derive_decade P (frames w6 ! df_clean) of
             Inl e \<Rightarrow> (Inl e, w6)
           | Inr t \<Rightarrow>
               let w7 = modify df_clean (\<lambda>_. t) w6;
                   w8 = modify df_clean fill_state w7
               in case total_giving date_cols (frames w8 ! df_clean) of
                    (t', msgs) \<Rightarrow>
                      (Inr df_clean,
                       (modify df_clean (\<lambda>_. t') w8)\<lparr>warnings := warnings w8 @ msgs\<rparr>))"

section \<open>Loading a workbook\<close>

text \<open>
  What the spreadsheet library does is an input of the loaders: opening the workbook
  either raises or gives the named sheets in workbook order, and reading one sheet either
  raises or gives its table.
\<close>

datatype 'df sheet = Parsed 'df | Unparsable exn

datatype 'df workbook_source = Unreadable exn | Workbook "(string \<times> 'df sheet) list"

definition sheet_warning :: "string \<Rightarrow> exn \<Rightarrow> string" where
  \<comment> \<open>\<open>f"Could not read sheet '{sheet_name}': {e}"\<close>\<close>
  "sheet_warning sheet_name e = ''Could not read sheet '' @ [CHR 0x27] @ sheet_name @ [CHR 0x27] @ '': '' @ message e"

fun read_sheets ::
  "(string \<times> 'df sheet) list \<Rightarrow> (string \<times> 'df) list \<Rightarrow> ui \<Rightarrow> (string \<times> 'df) list \<times> ui" where
  \<comment> \<open>the loop of \<open>load_data\<close> over \<open>xls.sheet_names\<close>, with its inner \<open>try\<close>\<close>
  "read_sheets [] all_sheets u = (all_sheets, u)"
| "read_sheets ((sheet_name, Parsed df) # rest) all_sheets u =
     read_sheets rest (AList.update sheet_name df all_sheets) u"
| "read_sheets ((sheet_name, Unparsable e) # rest) all_sheets u =
     read_sheets rest all_sheets (st_warning (sheet_warning sheet_name e) u)"

definition load_data :: "'df workbook_source \<Rightarrow> ui \<Rightarrow> (exn + (string \<times> 'df) list) \<times> ui" where
  \<comment> \<open>\<open>load_data\<close> of utils.py; \<open>Inl e\<close> is \<open>raise e\<close>\<close>
  "load_data uploaded_file u =
     (case uploaded_file of
        Unreadable e \<Rightarrow> (Inl e, st_error (''Error loading Excel file: '' @ message e) u)
      | Workbook sheets \<Rightarrow>
          (case read_sheets sheets [] u of (all_sheets, u') \<Rightarrow> (Inr all_sheets, u')))"

fun read_all_sheets :: "(string \<times> 'df sheet) list \<Rightarrow> (string \<times> 'df) list \<Rightarrow> exn + (string \<times> 'df) list" where
  \<comment> \<open>\<open>pd.read_excel(..., sheet_name=None)\<close>: every sheet is read, the first failure raises\<close>
  "read_all_sheets [] acc = Inr acc"
| "read_all_sheets ((sheet_name, Parsed df) # rest) acc =
     read_all_sheets rest (AList.update sheet_name df acc)"
| "read_all_sheets ((sheet_name, Unparsable e) # rest) acc = Inl e"







definition load_default_data :: "'df workbook_source \<Rightarrow> ui \<Rightarrow> (string \<times> 'df) list option \<times> ui" where
  \<comment> \<open>\<open>load_default_data\<close> of wow_analysis_app.py, the workbook file being the argument;
      \<open>None\<close> is the Python \<open>None\<close> it returns after an exception\<close>
  "load_default_data file u =
     (case (case file of Unreadable e \<Rightarrow> Inl e | Workbook sheets \<Rightarrow> read_all_sheets sheets []) of
        Inl e \<Rightarrow> (None, st_error (''Error loading default data: '' @ message e) u)
      | Inr all_sheets \<Rightarrow>
          (Some (if ''Sheet7'' \<in> fst ` set all_sheets
                 then AList.delete ''Sheet7'' all_sheets else all_sheets), u))"

section \<open>The normalizer, column by column\<close>

text \<open>
  The loops of \<open>clean_data\<close> treat every column on its own, by its name. The
  definitions of this section say what happens to one column and what the derived
  columns are; the proofs below show that \<open>clean_table\<close> computes exactly this for a
  table whose column names are distinct (\<open>pd.read_excel\<close> makes them so).
\<close>

definition is_date_name :: "string \<Rightarrow> bool" where
  \<comment> \<open>the test that puts a column into \<open>date_cols\<close>\<close>
  "is_date_name n = (py_in ''Date'' n \<or> py_in ''date'' n)"

definition is_amount_name :: "string \<Rightarrow> bool" where
  \<comment> \<open>the test that puts a column into \<open>amount_cols\<close>\<close>
  "is_amount_name n = ((py_in ''Gift'' n \<or> py_in ''Ask'' n) \<and> \<not> is_date_name n)"

definition parse_currency :: "string \<Rightarrow> column \<Rightarrow> column" where
  \<comment> \<open>what the loop over \<open>amount_cols\<close> does to the column \<open>n\<close>\<close>
  "parse_currency n c =
     (if dtype_of c = object
      then (if n = ''WE Range'' \<or> n = ''LT Giving'' then c
            else to_numeric (str_remove '','' (str_remove ''$'' c)))
      else c)"

definition normalize_column :: "platform \<Rightarrow> string \<Rightarrow> column \<Rightarrow> column" where
  \<comment> \<open>the rules for empty strings, the identifier, the years, the dates and the amounts,
      in the order of \<open>clean_data\<close>, on the column named \<open>n\<close>\<close>
  "normalize_column P n c =
     (let c1 = replace_empty c;
          c2 = (if n = ''ID'' then to_str_column c1 else c1);
          c3 = (if n \<in> set year_cols then to_numeric c2 else c2);
          c4 = (if is_date_name n then to_datetime P c3 else c3)
      in if is_amount_name n then parse_currency n c4 else c4)"

fun decade_labels :: "column \<Rightarrow> string list" where
  \<comment> \<open>the labels of the \<open>Decade\<close> column, from a numeric year column\<close>
  "decade_labels (Int64 ns) = map (\<lambda>n. show_int (wrap64 ((n div 10) * 10)) @ ''s'') ns"
| "decade_labels (Float64 rs) =
     map (\<lambda>r. case r of None \<Rightarrow> ''Unknown'' | Some x \<Rightarrow> show_int (\<lfloor>x / 10\<rfloor> * 10) @ ''s'') rs"
| "decade_labels (Datetime ts) = []"
| "decade_labels (Object cs) = []"

definition decade_column :: "column \<Rightarrow> column" where
  \<comment> \<open>the \<open>Decade\<close> column, from a numeric year column: its labels, or the column itself
      when it has no rows\<close>
  "decade_column c = (if col_length c = 0 then c else Object (map StrV (decade_labels c)))"

definition with_decade :: "table \<Rightarrow> table" where
  \<comment> \<open>the table with its \<open>Decade\<close> column, when it has a \<open>CL YR\<close> column\<close>
  "with_decade t =
     (case map_of t ''CL YR'' of
        None \<Rightarrow> t
      | Some c \<Rightarrow> assign ''Decade'' (decade_column c) t)"

definition no_empty :: "column \<Rightarrow> bool" where
  \<comment> \<open>a column without an empty string\<close>
  "no_empty c = (StrV [] \<notin> set (cells_of c))"

definition numeric :: "column \<Rightarrow> bool" where
  \<comment> \<open>an \<open>int64\<close> or \<open>float64\<close> column\<close>
  "numeric c = (dtype_of c = int64 \<or> dtype_of c = float64)"

definition is_giving :: "string \<Rightarrow> column \<Rightarrow> bool" where
  \<comment> \<open>the test that puts a column into \<open>giving_cols\<close>: a giving-amount column\<close>
  "is_giving n c =
     ((py_in ''Gifts'' n \<or> py_in ''Gift'' n) \<and> \<not> py_in ''Pledge'' n \<and> \<not> is_date_name n
      \<and> dtype_of c \<noteq> datetime64)"

definition giving_frame :: "table \<Rightarrow> table" where
  \<comment> \<open>the giving-amount columns of a table, in column order\<close>
  "giving_frame t = filter (\<lambda>(n, c). is_giving n c) t"

definition amounts :: "column \<Rightarrow> real list" where
  \<comment> \<open>the amounts of a column, row by row, a missing value counting as zero\<close>
  "amounts c = map (\<lambda>x. case x of IntV n \<Rightarrow> of_int n | FloatV r \<Rightarrow> r | _ \<Rightarrow> 0) (cells_of c)"

definition total_column :: "column list \<Rightarrow> column" where
  \<comment> \<open>the row-wise sum of numeric columns, as a column\<close>
  "total_column cs =
     (case those (map int_values cs) of
        Some nss \<Rightarrow> Int64 (map wrap64 (sum_rows nss))
      | None \<Rightarrow> Float64 (map Some (sum_rows (map amounts cs))))"

definition with_total :: "table \<Rightarrow> table" where
  \<comment> \<open>the table with its \<open>Total_All_Giving\<close> column, when it has a giving-amount column\<close>
  "with_total t =
     (if giving_frame t = [] then t
      else assign ''Total_All_Giving'' (total_column (map snd (giving_frame t))) t)"

definition normalized :: "platform \<Rightarrow> table \<Rightarrow> table" where
  \<comment> \<open>the normalized table: every column by its rule, then the derived columns\<close>
  "normalized P df = with_total (fill_state (with_decade (AList.map_ran (normalize_column P) df)))"

section \<open>Notions of the statements, and examples\<close>


definition decade_bucket :: "real \<Rightarrow> string" where
  \<comment> \<open>the decade bucket of a year, by the rule of the specification\<close>
  "decade_bucket v =
     (if v < 1950 then ''Pre-1950s'' else if 2020 \<le> v then ''2020s''
      else show_int (\<lfloor>v / 10\<rfloor> * 10) @ ''s'')"




fun readable_sheets :: "(string \<times> 'df sheet) list \<Rightarrow> (string \<times> 'df) list" where
  \<comment> \<open>the sheets of a workbook that can be read, in workbook order\<close>
  "readable_sheets [] = []"
| "readable_sheets ((n, Parsed df) # rest) = (n, df) # readable_sheets rest"
| "readable_sheets ((n, Unparsable e) # rest) = readable_sheets rest"

fun failure_warnings :: "(string \<times> 'df sheet) list \<Rightarrow> string list" where
  \<comment> \<open>one warning for each sheet that cannot be read, in workbook order\<close>
  "failure_warnings [] = []"
| "failure_warnings ((n, Parsed df) # rest) = failure_warnings rest"
| "failure_warnings ((n, Unparsable e) # rest) = sheet_warning n e # failure_warnings rest"

definition giving_wealth_vocabulary :: "string set" where
  \<comment> \<open>the labels of the standardizer of the giving analysis\<close>
  "giving_wealth_vocabulary = {''Under $100K'', ''$100K-$250K'', ''$250K-$500K'',
     ''$500K-$1M'', ''$1M-$5M'', ''Over $5M''}"

definition no_ui :: ui where
  \<comment> \<open>a page without messages\<close>
  "no_ui = \<lparr>warnings = [], errors = []\<rparr>"

definition no_dates :: platform where
  \<comment> \<open>a platform that reads no date, and no text outside ASCII\<close>
  "no_dates = \<lparr>parse_date = (\<lambda>c. None), int_text = (\<lambda>s. None), strip_text = (\<lambda>s. s),
     isdigit_text = (\<lambda>s. False), len_text = length\<rparr>"

definition without_symbols :: "string \<Rightarrow> string" where
  \<comment> \<open>a text without its currency symbols and thousands separators\<close>
  "without_symbols s = filter (\<lambda>ch. ch \<noteq> CHR ''$'' \<and> ch \<noteq> CHR '','') s"

definition example_world :: world where
  \<comment> \<open>a state holding one small table\<close>
  "example_world = \<lparr>warnings = [], errors = [],
     frames = [[(''ID'', Int64 [101]), (''Gift'', Int64 [- 5])]]\<rparr>"

definition comparable_year :: "cell \<Rightarrow> bool" where
  \<comment> \<open>a missing year, or a numeric year from 1950 up to 2030, exclusive\<close>
  "comparable_year y =
     (case y of NaN \<Rightarrow> True | IntV n \<Rightarrow> 1950 \<le> n \<and> n < 2030
      | FloatV r \<Rightarrow> 1950 \<le> r \<and> r < 2030 | StrV s \<Rightarrow> False | TsV t \<Rightarrow> False)"

definition example_day :: "timestamp option list" where
  "example_day = [Some (Timestamp 2021 3 4 0 0 0), None]"

definition example_gifts :: table where
  \<comment> \<open>a small table with two giving columns, a pledge column, a date column and a
      column of datetime type\<close>
  "example_gifts = [(''FY21 Gifts'', Float64 [Some 1, None]), (''Pledge Gift'', Int64 [7, 8]),
     (''Gift Date'', Object [StrV ''x'', NaN]), (''FY22 Gifts'', Int64 [2, 3]),
     (''Gift Day'', Datetime example_day)]"

definition example_gifts_clean :: table where
  \<comment> \<open>\<open>example_gifts\<close> normalized, no date being readable\<close>
  "example_gifts_clean = [(''FY21 Gifts'', Float64 [Some 1, None]), (''Pledge Gift'', Int64 [7, 8]),
     (''Gift Date'', Datetime [None, None]), (''FY22 Gifts'', Int64 [2, 3]),
     (''Gift Day'', Datetime example_day), (''Total_All_Giving'', Float64 [Some 3, Some 3])]"


definition row_total :: "table \<Rightarrow> real \<Rightarrow> real" where
  \<comment> \<open>the sum \<open>x\<close> of the amounts of one row as it is stored: when every summed column is
      an \<open>int64\<close> column the sum is a 64-bit integer and wraps around\<close>
  "row_total g x = (if list_all (\<lambda>(n, c). dtype_of c = int64) g then of_int (wrap64 \<lfloor>x\<rfloor>) else x)"


section \<open>Decade buckets: proofs\<close>








lemma ascii_append [simp]: "ascii (s @ t) = (ascii s \<and> ascii t)"
  by (simp add: ascii_def)

lemma ascii_Cons [simp]: "ascii (c # s) = ((of_char c :: nat) < 128 \<and> ascii s)"
  by (simp add: ascii_def)

lemma ascii_Nil [simp]: "ascii []"
  by (simp add: ascii_def)



lemma ascii_digit_char: "d < 10 \<Longrightarrow> (of_char (digit_char d) :: nat) < 128"
  by (simp add: digit_char_def)

lemma ascii_show_nat [simp]: "ascii (show_nat n)"
proof (induction n rule: show_nat.induct)
  case (1 n)
  show ?case
  proof (cases "n < 10")
    case True
    then show ?thesis by (subst show_nat.simps) (simp add: ascii_digit_char)
  next
    case False
    then have "ascii (show_nat (n div 10))" using 1 by simp
    with False show ?thesis by (subst show_nat.simps) (simp add: ascii_digit_char)
  qed
qed

lemma ascii_replicate [simp]: "ascii (replicate k c) = (k = 0 \<or> (of_char c :: nat) < 128)"
  by (auto simp: ascii_def list_all_iff)

lemma ascii_timestamp_str [simp]: "ascii (timestamp_str t)"
  by (simp add: timestamp_str_def date_str_def pad_def)

lemma trunc_less: "(trunc r < 1950) = (r < 1950)"
  unfolding trunc_def by (auto simp: floor_less_iff ceiling_less_iff)

lemma trunc_ge: "(2020 \<le> trunc r) = (2020 \<le> r)"
  unfolding trunc_def by (auto simp: le_floor_iff le_ceiling_iff)

lemma capped_decade_real: "capped_decade (trunc r) = decade_bucket r"
proof -
  have "\<lfloor>r / 10\<rfloor> = \<lfloor>r\<rfloor> div 10"
    using floor_divide_real_eq_div [of 10 r] by simp
  moreover have "0 \<le> r \<Longrightarrow> trunc r = \<lfloor>r\<rfloor>" by (simp add: trunc_def)
  ultimately show ?thesis
    by (auto simp: capped_decade_def decade_bucket_def decade_of_int_def trunc_less trunc_ge)
qed










section \<open>Wealth ranges: proofs\<close>

lemma if_in: "a \<in> S \<Longrightarrow> b \<in> S \<Longrightarrow> (if c then a else b) \<in> S"
  by simp

lemma targeting_in_vocabulary:
  "standardize_wealth_range_targeting w \<in> insert ''Unknown'' wealth_vocabulary"
  unfolding standardize_wealth_range_targeting_def wealth_vocabulary_def Let_def
  by (intro if_in; simp)

lemma giving_in_vocabulary:
  "standardize_wealth_range_giving w \<in> insert ''Unknown'' giving_wealth_vocabulary"
  unfolding standardize_wealth_range_giving_def giving_wealth_vocabulary_def Let_def
  by (intro if_in; simp)

text \<open>
  C5, as stated, fails: the two standardizers differ. On "5,000,000+" the one of the
  giving analysis answers "Unknown" and the one of the targeting analysis "Over $5M", and
  the former has the label "Under $100K", which is not in the vocabulary.
\<close>

theorem wealth_standardizers_differ:
  "standardize_wealth_range_giving (StrV ''5,000,000+'') = ''Unknown''
   \<and> standardize_wealth_range_targeting (StrV ''5,000,000+'') = ''Over $5M''
   \<and> standardize_wealth_range_giving (StrV ''Under 50K'') = ''Under $100K''
   \<and> ''Under $100K'' \<notin> insert ''Unknown'' wealth_vocabulary"
  by code_simp

text \<open>
  C5, amended. The standardizer of the targeting analysis maps every raw value into the
  vocabulary or to "Unknown", which it gives for a missing value only (unrecognized text
  falls into "Under $50K"); it maps "5,000,000+" to "Over $5M" and "100,000-249,999" to
  "$100K-$250K". The standardizer of the giving analysis is another function, into
  its own labels or "Unknown"; the two agree on a missing value.
\<close>

theorem wealth_range_vocabulary:
  "standardize_wealth_range_targeting w \<in> insert ''Unknown'' wealth_vocabulary
   \<and> (standardize_wealth_range_targeting w = ''Unknown'') = isna w
   \<and> standardize_wealth_range_targeting (StrV ''5,000,000+'') = ''Over $5M''
   \<and> standardize_wealth_range_targeting (StrV ''100,000-249,999'') = ''$100K-$250K''
   \<and> standardize_wealth_range_targeting (StrV ''TBD'') = ''Under $50K''
   \<and> standardize_wealth_range_giving w \<in> insert ''Unknown'' giving_wealth_vocabulary
   \<and> standardize_wealth_range_giving NaN = standardize_wealth_range_targeting NaN"
proof -
  have "standardize_wealth_range_targeting w \<noteq> ''Unknown''" if "\<not> isna w"
    unfolding standardize_wealth_range_targeting_def Let_def using that by simp
  moreover have "standardize_wealth_range_targeting w = ''Unknown''" if "isna w"
    unfolding standardize_wealth_range_targeting_def using that by simp
  ultimately have "(standardize_wealth_range_targeting w = ''Unknown'') = isna w" by blast
  moreover have "standardize_wealth_range_targeting (StrV ''5,000,000+'') = ''Over $5M''
   \<and> standardize_wealth_range_targeting (StrV ''100,000-249,999'') = ''$100K-$250K''
   \<and> standardize_wealth_range_targeting (StrV ''TBD'') = ''Under $50K''
   \<and> standardize_wealth_range_giving NaN = standardize_wealth_range_targeting NaN"
    by code_simp
  ultimately show ?thesis
    using targeting_in_vocabulary [of w] giving_in_vocabulary [of w] by blast
qed

theorem wealth_range_vocabulary_witness:
  "standardize_wealth_range_targeting (IntV 7) \<in> insert ''Unknown'' wealth_vocabulary
   \<and> standardize_wealth_range_targeting (IntV 7) \<noteq> ''Unknown''"
proof -
  have "\<not> isna (IntV 7)" by (simp add: isna_def)
  then show ?thesis using wealth_range_vocabulary [of "IntV 7"] by blast
qed

section \<open>Loading: proofs\<close>

lemma update_fresh: "k \<notin> fst ` set al \<Longrightarrow> AList.update k v al = al @ [(k, v)]"
  by (induction al) auto

lemma fst_readable: "fst ` set (readable_sheets sheets) \<subseteq> fst ` set sheets"
  by (induction sheets rule: readable_sheets.induct) auto

lemma read_sheets_eq:
  "distinct (map fst all_sheets @ map fst sheets) \<Longrightarrow>
   read_sheets sheets all_sheets u =
     (all_sheets @ readable_sheets sheets, u\<lparr>warnings := warnings u @ failure_warnings sheets\<rparr>)"
proof (induction sheets all_sheets u rule: read_sheets.induct)
  case (1 all_sheets u)
  then show ?case by simp
next
  case (2 sheet_name df rest all_sheets u)
  then show ?case by (simp add: update_fresh)
next
  case (3 sheet_name e rest all_sheets u)
  then show ?case by (simp add: st_warning_def)
qed

lemma read_sheets_keys:
  "fst ` set (fst (read_sheets sheets all_sheets u)) =
     fst ` set all_sheets \<union> {n. \<exists>df. (n, Parsed df) \<in> set sheets}"
  by (induction sheets all_sheets u rule: read_sheets.induct) (auto simp: AList.dom_update)

text \<open>
  C9. \<open>load_data\<close> raises when the workbook cannot be opened. When it can, the load never
  raises: every sheet that can be read is in the result, with its table and in workbook
  order, and every sheet that cannot is left out, with one warning each. (Sheet names are
  distinct, as they are in a workbook.)
\<close>

theorem load_data_absorbs_sheet_failures:
  "load_data (Unreadable e) u = (Inl e, st_error (''Error loading Excel file: '' @ message e) u)
   \<and> (distinct (map fst sheets) \<longrightarrow>
        load_data (Workbook sheets) u =
          (Inr (readable_sheets sheets), u\<lparr>warnings := warnings u @ failure_warnings sheets\<rparr>))"
  by (simp add: load_data_def read_sheets_eq)

theorem load_data_absorbs_sheet_failures_witness:
  "distinct (map fst [(''A'', Parsed (1::nat)), (''B'', Unparsable (Exn ''bad'')), (''C'', Parsed 2)])
   \<and> load_data (Workbook [(''A'', Parsed (1::nat)), (''B'', Unparsable (Exn ''bad'')), (''C'', Parsed 2)]) no_ui
     = (Inr [(''A'', 1), (''C'', 2)],
        \<lparr>warnings = [''Could not read sheet '' @ [CHR 0x27] @ ''B'' @ [CHR 0x27] @ '': bad''], errors = []\<rparr>)"
proof -
  have d: "distinct (map fst [(''A'', Parsed (1::nat)), (''B'', Unparsable (Exn ''bad'')), (''C'', Parsed 2)])"
    by simp
  from load_data_absorbs_sheet_failures [THEN conjunct2, rule_format, OF d, of no_ui] d
  show ?thesis by (simp add: sheet_warning_def no_ui_def)
qed

text \<open>
  C1, as stated, fails: \<open>load_data\<close> keeps a sheet named "Sheet7", and
  \<open>load_default_data\<close> keeps a sheet named "SHEET7"; both names are "sheet7" in lower
  case.
\<close>

theorem placeholder_sheet_is_loaded:
  "fst (load_data (Workbook [(''Sheet7'', Parsed [(''ID'', Int64 [])])]) no_ui)
     = Inr [(''Sheet7'', [(''ID'', Int64 [])])]
   \<and> fst (load_default_data (Workbook [(''SHEET7'', Parsed [(''ID'', Int64 [])])]) no_ui)
     = Some [(''SHEET7'', [(''ID'', Int64 [])])]
   \<and> lower ''Sheet7'' = ''sheet7'' \<and> lower ''SHEET7'' = ''sheet7''"
  by code_simp

text \<open>
  C1, amended. For every workbook, the mapping that \<open>load_default_data\<close> returns has no
  key equal to "Sheet7" (the comparison is exact, not case-insensitive). \<open>load_data\<close>
  leaves no sheet out because of its name: its keys are the names of all the sheets that
  could be read.
\<close>

theorem loaded_sheet_names:
  "(load_default_data file u = (Some all_sheets, u') \<longrightarrow> ''Sheet7'' \<notin> fst ` set all_sheets)
   \<and> (load_data (Workbook sheets) v = (Inr loaded, v') \<longrightarrow>
        fst ` set loaded = {n. \<exists>df. (n, Parsed df) \<in> set sheets})"
proof -
  have "''Sheet7'' \<notin> fst ` set all_sheets" if "load_default_data file u = (Some all_sheets, u')"
    using that unfolding load_default_data_def
    by (auto simp: AList.delete_eq split: sum.splits if_splits)
  moreover have "fst ` set loaded = {n. \<exists>df. (n, Parsed df) \<in> set sheets}"
    if "load_data (Workbook sheets) v = (Inr loaded, v')"
    using that read_sheets_keys [of sheets "[]" v]
    by (auto simp: load_data_def split: prod.splits)
  ultimately show ?thesis by blast
qed

theorem loaded_sheet_names_witness:
  "load_default_data (Workbook [(''A'', Parsed (Int64 [1])), (''Sheet7'', Parsed (Int64 []))]) no_ui
     = (Some [(''A'', Int64 [1])], no_ui)
   \<and> ''Sheet7'' \<notin> fst ` set [(''A'', Int64 [1])]
   \<and> load_data (Workbook [(''Sheet7'', Parsed (Int64 [])), (''B'', Unparsable (Exn ''bad''))]) no_ui
     = (Inr [(''Sheet7'', Int64 [])], st_warning (sheet_warning ''B'' (Exn ''bad'')) no_ui)
   \<and> fst ` set [(''Sheet7'', Int64 [])]
     = {n. \<exists>df. (n, Parsed df) \<in> set [(''Sheet7'', Parsed (Int64 [])), (''B'', Unparsable (Exn ''bad''))]}"
proof -
  have a: "load_default_data (Workbook [(''A'', Parsed (Int64 [1])), (''Sheet7'', Parsed (Int64 []))]) no_ui
     = (Some [(''A'', Int64 [1])], no_ui)"
    by (simp add: load_default_data_def)
  have b: "load_data (Workbook [(''Sheet7'', Parsed (Int64 [])), (''B'', Unparsable (Exn ''bad''))]) no_ui
     = (Inr [(''Sheet7'', Int64 [])], st_warning (sheet_warning ''B'' (Exn ''bad'')) no_ui)"
    by (simp add: load_data_def)
  from a b loaded_sheet_names [of "Workbook [(''A'', Parsed (Int64 [1])), (''Sheet7'', Parsed (Int64 []))]"
      no_ui "[(''A'', Int64 [1])]" no_ui "[(''Sheet7'', Parsed (Int64 [])), (''B'', Unparsable (Exn ''bad''))]"
      no_ui "[(''Sheet7'', Int64 [])]" "st_warning (sheet_warning ''B'' (Exn ''bad'')) no_ui"]
  show ?thesis by blast
qed

section \<open>The normalizer: proofs\<close>

subsection \<open>Assignments to columns\<close>

lemma columns_transform [simp]: "columns (transform k f t) = columns t"
  unfolding columns_def transform_def by (induction t) auto

lemma map_of_transform:
  "map_of (transform k f t) n = (if n = k then map_option f (map_of t k) else map_of t n)"
  unfolding transform_def by (simp add: AList.map_of_map_entry split: option.splits)

lemma transform_id: "(\<And>c. map_of t k = Some c \<Longrightarrow> f c = c) \<Longrightarrow> transform k f t = t"
  unfolding transform_def by (induction t) (auto split: if_splits)

lemma transform_cong:
  "(\<And>c. map_of t k = Some c \<Longrightarrow> f c = g c) \<Longrightarrow> transform k f t = transform k g t"
  unfolding transform_def by (induction t) (auto split: if_splits)

lemma transform_transform: "transform k f (transform k g t) = transform k (f \<circ> g) t"
  unfolding transform_def by (induction t) auto

lemma transform_map_ran:
  "distinct (map fst t) \<Longrightarrow>
   transform k f t = AList.map_ran (\<lambda>n c. if n = k then f c else c) t"
  unfolding transform_def
proof (induction t)
  case Nil
  then show ?case by simp
next
  case (Cons p t)
  obtain n c where p: "p = (n, c)" by (cases p)
  have "AList.map_ran (\<lambda>n c. if n = k then f c else c) t = t" if "k \<notin> fst ` set t"
    using that by (induction t) (auto simp: AList.map_ran_def)
  with Cons p show ?case by (auto simp: AList.map_ran_def)
qed

lemma map_fst_map_ran: "map fst (AList.map_ran f t) = map fst t"
  by simp

lemma fold_transform_map_ran:
  "distinct ns \<Longrightarrow> distinct (map fst t) \<Longrightarrow>
   fold (\<lambda>col. transform col (g col)) ns t
     = AList.map_ran (\<lambda>n c. if n \<in> set ns then g n c else c) t"
proof (induction ns arbitrary: t)
  case Nil
  then show ?case by (simp add: AList.map_ran_def)
next
  case (Cons a ns)
  have "fold (\<lambda>col. transform col (g col)) (a # ns) t
      = fold (\<lambda>col. transform col (g col)) ns (transform a (g a) t)" by simp
  also have "\<dots> = AList.map_ran (\<lambda>n c. if n \<in> set ns then g n c else c) (transform a (g a) t)"
    using Cons by (intro Cons.IH) (simp_all add: transform_def AList.distinct_map_entry)
  also have "transform a (g a) t = AList.map_ran (\<lambda>n c. if n = a then g a c else c) t"
    using Cons.prems by (simp add: transform_map_ran)
  finally show ?case using Cons.prems
    by (auto simp: AList.map_ran_def intro!: map_cong)
qed

lemma guarded_transform:
  "(if col \<in> set (columns t) then transform col f t else t) = transform col f t"
proof -
  have "transform col f t = t" if "col \<notin> set (columns t)"
    using that unfolding transform_def columns_def by (induction t) auto
  then show ?thesis by simp
qed


lemma map_ran_cong:
  "(\<And>n c. (n, c) \<in> set t \<Longrightarrow> f n c = g n c) \<Longrightarrow> AList.map_ran f t = AList.map_ran g t"
  by (auto simp: AList.map_ran_def)

lemma map_ran_map_ran:
  "AList.map_ran f (AList.map_ran g t) = AList.map_ran (\<lambda>n c. f n (g n c)) t"
  by (auto simp: AList.map_ran_def)

lemma columns_map_ran [simp]: "columns (AList.map_ran f t) = columns t"
  by (simp add: columns_def)

lemma in_columns: "(n, c) \<in> set t \<Longrightarrow> n \<in> set (columns t)"
  by (force simp: columns_def)

subsection \<open>The steps on the columns, one by one\<close>

lemma replace_empty_strings_eq:
  "distinct (columns t) \<Longrightarrow> replace_empty_strings t = AList.map_ran (\<lambda>n. replace_empty) t"
  unfolding replace_empty_strings_def
  by (simp add: fold_transform_map_ran columns_def [symmetric])
     (auto intro!: map_ran_cong dest: in_columns)

lemma id_to_str_eq:
  "distinct (columns t) \<Longrightarrow>
   id_to_str t = AList.map_ran (\<lambda>n c. if n = ''ID'' then to_str_column c else c) t"
  unfolding id_to_str_def
  by (simp only: guarded_transform) (simp add: transform_map_ran columns_def)

lemma years_to_numeric_eq:
  "distinct (columns t) \<Longrightarrow>
   years_to_numeric t = AList.map_ran (\<lambda>n c. if n \<in> set year_cols then to_numeric c else c) t"
proof -
  assume d: "distinct (columns t)"
  have "distinct year_cols" by (simp add: year_cols_def)
  with d show ?thesis
    unfolding years_to_numeric_def
    by (simp only: guarded_transform) (simp add: fold_transform_map_ran columns_def)
qed

lemma dates_to_datetime_eq:
  "distinct (columns t) \<Longrightarrow>
   dates_to_datetime P (date_columns t) t
     = AList.map_ran (\<lambda>n c. if is_date_name n then to_datetime P c else c) t"
proof -
  assume d: "distinct (columns t)"
  then have "distinct (date_columns t)" by (simp add: date_columns_def)
  with d have "dates_to_datetime P (date_columns t) t
     = AList.map_ran (\<lambda>n c. if n \<in> set (date_columns t) then to_datetime P c else c) t"
    unfolding dates_to_datetime_def
    by (simp only: guarded_transform) (simp add: fold_transform_map_ran columns_def)
  also have "\<dots> = AList.map_ran (\<lambda>n c. if is_date_name n then to_datetime P c else c) t"
    by (rule map_ran_cong) (auto simp: date_columns_def is_date_name_def dest: in_columns)
  finally show ?thesis .
qed

lemma parse_amounts_eq: "parse_amounts col t = transform col (parse_currency col) t"
proof (cases "map_of t col")
  case None
  then have "col \<notin> set (columns t)" by (simp add: columns_def map_of_eq_None_iff)
  then show ?thesis using guarded_transform [of col t "parse_currency col"]
    by (simp add: parse_amounts_def)
next
  case (Some c)
  then have "col \<in> set (columns t)"
    by (metis columns_def map_of_eq_None_iff option.distinct(1) set_map)
  moreover have "transform col to_numeric (transform col (str_remove '','') (transform col (str_remove ''$'') t))
      = transform col (parse_currency col) t"
    if "dtype_of c = object" "\<not> (col = ''WE Range'' \<or> col = ''LT Giving'')"
    unfolding transform_transform using that Some
    by (intro transform_cong) (simp add: parse_currency_def)
  moreover have "t = transform col (parse_currency col) t"
    if "dtype_of c \<noteq> object \<or> col = ''WE Range'' \<or> col = ''LT Giving''"
    using that Some by (intro transform_id [symmetric]) (auto simp: parse_currency_def)
  ultimately show ?thesis using Some
    by (auto simp: parse_amounts_def)
qed

lemma amounts_to_numeric_eq:
  "distinct (columns t) \<Longrightarrow>
   amounts_to_numeric (amount_columns (date_columns t) t) t
     = AList.map_ran (\<lambda>n c. if is_amount_name n then parse_currency n c else c) t"
proof -
  assume d: "distinct (columns t)"
  then have "distinct (amount_columns (date_columns t) t)" by (simp add: amount_columns_def)
  with d have "amounts_to_numeric (amount_columns (date_columns t) t) t
     = AList.map_ran (\<lambda>n c. if n \<in> set (amount_columns (date_columns t) t) then parse_currency n c else c) t"
    unfolding amounts_to_numeric_def
    by (simp add: parse_amounts_eq [abs_def] fold_transform_map_ran columns_def)
  also have "\<dots> = AList.map_ran (\<lambda>n c. if is_amount_name n then parse_currency n c else c) t"
    by (rule map_ran_cong)
       (auto simp: amount_columns_def date_columns_def is_amount_name_def is_date_name_def dest: in_columns)
  finally show ?thesis .
qed

lemma date_columns_map_ran [simp]: "date_columns (AList.map_ran f t) = date_columns t"
  by (simp add: date_columns_def)

lemma amount_columns_map_ran [simp]: "amount_columns dc (AList.map_ran f t) = amount_columns dc t"
  by (simp add: amount_columns_def)

lemma columns_normalized:
  "distinct (columns df) \<Longrightarrow>
   amounts_to_numeric
     (amount_columns (date_columns (years_to_numeric (id_to_str (replace_empty_strings df))))
        (dates_to_datetime P (date_columns (years_to_numeric (id_to_str (replace_empty_strings df))))
           (years_to_numeric (id_to_str (replace_empty_strings df)))))
     (dates_to_datetime P (date_columns (years_to_numeric (id_to_str (replace_empty_strings df))))
        (years_to_numeric (id_to_str (replace_empty_strings df))))
   = AList.map_ran (normalize_column P) df"
proof -
  assume d: "distinct (columns df)"
  have t1: "replace_empty_strings df = AList.map_ran (\<lambda>n. replace_empty) df" (is "_ = ?t1")
    using d by (rule replace_empty_strings_eq)
  have d1: "distinct (columns ?t1)" using d by simp
  have t2: "id_to_str ?t1 = AList.map_ran (\<lambda>n c. if n = ''ID'' then to_str_column c else c) ?t1" (is "_ = ?t2")
    using d1 by (rule id_to_str_eq)
  have d2: "distinct (columns ?t2)" using d by simp
  have t3: "years_to_numeric ?t2 = AList.map_ran (\<lambda>n c. if n \<in> set year_cols then to_numeric c else c) ?t2" (is "_ = ?t3")
    using d2 by (rule years_to_numeric_eq)
  have d3: "distinct (columns ?t3)" using d by simp
  have t4: "dates_to_datetime P (date_columns ?t3) ?t3
      = AList.map_ran (\<lambda>n c. if is_date_name n then to_datetime P c else c) ?t3" (is "_ = ?t4")
    using d3 by (rule dates_to_datetime_eq)
  have d4: "distinct (columns ?t4)" using d by simp
  have t5: "amounts_to_numeric (amount_columns (date_columns ?t4) ?t4) ?t4
      = AList.map_ran (\<lambda>n c. if is_amount_name n then parse_currency n c else c) ?t4"
    using d4 by (rule amounts_to_numeric_eq)
  have "date_columns ?t4 = date_columns ?t3" by simp
  with t1 t2 t3 t4 t5 show ?thesis
    by (simp add: map_ran_map_ran normalize_column_def [abs_def] Let_def)
qed


subsection \<open>The fixed column names\<close>

lemma fixed_names:
  "\<not> is_date_name ''ID''" "\<not> is_amount_name ''ID''" "''ID'' \<notin> set year_cols"
  "\<not> is_date_name ''CL YR''" "\<not> is_amount_name ''CL YR''" "''CL YR'' \<in> set year_cols"
  "\<not> is_date_name ''State''" "\<not> is_amount_name ''State''" "''State'' \<notin> set year_cols"
  "\<not> is_date_name ''Decade''" "\<not> is_amount_name ''Decade''" "''Decade'' \<notin> set year_cols"
  "\<not> is_date_name ''Total_All_Giving''" "\<not> is_amount_name ''Total_All_Giving''"
  "''Total_All_Giving'' \<notin> set year_cols"
  "\<not> py_in ''Gift'' ''State''" "\<not> py_in ''Gift'' ''Decade''" "\<not> py_in ''Gift'' ''Total_All_Giving''"
  "\<not> py_in ''Gift'' ''CL YR''" "\<not> py_in ''Gifts'' ''State''" "\<not> py_in ''Gifts'' ''Decade''"
  "\<not> py_in ''Gifts'' ''Total_All_Giving''" "\<not> py_in ''Gifts'' ''CL YR''"
  "\<not> py_in ''Pledge'' ''Total_All_Giving''"
  "\<not> is_date_name ''SP CL YR''" "\<not> is_amount_name ''SP CL YR''"
  "\<not> is_amount_name ''WE Range''" "\<not> is_amount_name ''LT Giving''"
  by (simp_all add: is_date_name_def is_amount_name_def year_cols_def)

lemma normalize_fixed:
  "normalize_column P ''ID'' c = to_str_column (replace_empty c)"
  "normalize_column P ''CL YR'' c = to_numeric (replace_empty c)"
  "normalize_column P ''State'' c = replace_empty c"
  "normalize_column P ''Decade'' c = replace_empty c"
  "normalize_column P ''Total_All_Giving'' c = replace_empty c"
  by (simp_all add: normalize_column_def fixed_names)

subsection \<open>Numeric columns and the decade\<close>

lemma numeric_cases:
  "numeric c = ((\<exists>ns. c = Int64 ns) \<or> (\<exists>rs. c = Float64 rs))"
  by (cases c) (simp_all add: numeric_def)

lemma numeric_to_numeric: "numeric (to_numeric c)"
  by (cases c) (simp_all add: numeric_def numeric_column_def)

lemma to_numeric_numeric: "numeric c \<Longrightarrow> to_numeric c = c"
  by (auto simp: numeric_cases)

lemma replace_empty_numeric: "numeric c \<Longrightarrow> replace_empty c = c"
  by (auto simp: numeric_cases)

lemma apply_all_map: "(\<And>x. x \<in> set xs \<Longrightarrow> f x = Inr (g x)) \<Longrightarrow> apply_all f xs = Inr (map g xs)"
  by (induction xs) auto

lemma trunc_of_int [simp]: "trunc (of_int k) = k"
  by (simp add: trunc_def)

lemma decade_labels_of_numeric:
  assumes "numeric c"
  shows "\<exists>d. floordiv10_times10 c = Inr d \<and> col_length d = col_length c
           \<and> (col_length c = 0 \<longrightarrow> d = c)
           \<and> apply_all (decade_lambda P) (cells_of d) = Inr (decade_labels c)"
proof -
  from assms consider ns where "c = Int64 ns" | rs where "c = Float64 rs"
    by (auto simp: numeric_cases)
  then show ?thesis
  proof cases
    case 1
    have "apply_all (decade_lambda P) (map IntV (map (\<lambda>n. wrap64 ((n div 10) * 10)) ns))
        = Inr (map (\<lambda>x. show_int (case x of IntV n \<Rightarrow> n | _ \<Rightarrow> 0) @ ''s'')
                 (map IntV (map (\<lambda>n. wrap64 ((n div 10) * 10)) ns)))"
      by (rule apply_all_map) (auto simp: decade_lambda_def isna_def)
    with 1 show ?thesis by (simp add: comp_def)
  next
    case 2
    let ?cells = "map (\<lambda>r. case r of None \<Rightarrow> NaN | Some x \<Rightarrow> FloatV x)
                    (map (map_option (\<lambda>r. of_int \<lfloor>r / 10\<rfloor> * 10)) rs)"
    have "apply_all (decade_lambda P) ?cells
        = Inr (map (\<lambda>x. case x of FloatV r \<Rightarrow> show_int (trunc r) @ ''s'' | _ \<Rightarrow> ''Unknown'') ?cells)"
      by (rule apply_all_map) (auto simp: decade_lambda_def isna_def split: option.splits)
    moreover have "trunc (of_int k * 10) = k * 10" for k
      using trunc_of_int [of "k * 10"] by simp
    ultimately show ?thesis using 2
      by (simp add: comp_def) (auto split: option.splits)
  qed
qed

lemma decade_of_numeric:
  assumes "numeric c"
  shows "\<exists>d. floordiv10_times10 c = Inr d
           \<and> apply_text (decade_lambda P) d = Inr (decade_column c)"
proof -
  from decade_labels_of_numeric [OF assms, of P]
  obtain d where d: "floordiv10_times10 c = Inr d" "col_length d = col_length c"
    "col_length c = 0 \<longrightarrow> d = c"
    "apply_all (decade_lambda P) (cells_of d) = Inr (decade_labels c)"
    by auto
  then have "apply_text (decade_lambda P) d = Inr (decade_column c)"
    by (simp add: apply_text_def decade_column_def)
  with d(1) show ?thesis by blast
qed

lemma derive_decade_eq:
  assumes "\<And>c. map_of t ''CL YR'' = Some c \<Longrightarrow> numeric c"
  shows "derive_decade P t = Inr (with_decade t)"
proof (cases "map_of t ''CL YR''")
  case None
  then show ?thesis by (simp add: derive_decade_def with_decade_def)
next
  case (Some c)
  with assms obtain d where "floordiv10_times10 c = Inr d"
    "apply_text (decade_lambda P) d = Inr (decade_column c)"
    using decade_of_numeric by blast
  with Some show ?thesis
    by (simp add: derive_decade_def with_decade_def assign_def)
qed

lemma map_of_map_ran: "map_of (AList.map_ran f t) n = map_option (f n) (map_of t n)"
  by (rule AList.map_ran_conv)

theorem clean_table_eq:
  assumes "distinct (columns df)"
  shows "clean_table P df =
     Inr (total_giving (date_columns df)
            (fill_state (with_decade (AList.map_ran (normalize_column P) df))))"
proof -
  let ?t5 = "AList.map_ran (normalize_column P) df"
  have "numeric c" if "map_of ?t5 ''CL YR'' = Some c" for c
    using that by (auto simp: map_of_map_ran normalize_fixed numeric_to_numeric)
  then have "derive_decade P ?t5 = Inr (with_decade ?t5)" by (rule derive_decade_eq)
  moreover have "date_columns (years_to_numeric (id_to_str (replace_empty_strings df))) = date_columns df"
    using assms
    by (simp add: replace_empty_strings_eq id_to_str_eq years_to_numeric_eq)
  ultimately show ?thesis
    using columns_normalized [OF assms, of P]
    by (simp add: clean_table_def Let_def)
qed


subsection \<open>Normalizing a normalized column\<close>

lemma show_nat_nonempty [simp]: "show_nat n \<noteq> []"
  by (subst show_nat.simps) simp

lemma show_int_nonempty [simp]: "show_int i \<noteq> []"
  by (simp add: show_int_def)

lemma show_float_nonempty [simp]: "show_float r \<noteq> []"
  by (simp add: show_float_def Let_def)

lemma date_str_nonempty [simp]: "date_str t \<noteq> []"
  by (simp add: date_str_def)

lemma timestamp_str_nonempty [simp]: "timestamp_str t \<noteq> []"
  by (simp add: timestamp_str_def)

lemma py_str_nonempty: "c \<noteq> StrV [] \<Longrightarrow> py_str c \<noteq> []"
  by (cases c) simp_all

lemma no_empty_typed: "dtype_of c \<noteq> object \<Longrightarrow> no_empty c"
  by (cases c) (auto simp: no_empty_def split: option.splits)

lemma replace_empty_id: "no_empty c \<Longrightarrow> replace_empty c = c"
  by (cases c) (auto simp: no_empty_def)

lemma no_empty_infer:
  "StrV [] \<notin> set cs \<Longrightarrow> no_empty (infer_objects cs)"
  by (auto simp: infer_objects_def no_empty_def as_float_def split: option.splits cell.splits)

lemma no_empty_replace [simp]: "no_empty (replace_empty c)"
proof (cases c)
  case (Object cs)
  have "StrV [] \<notin> set (map (\<lambda>c. if c = StrV [] then NaN else c) cs)" by auto
  then have "no_empty (infer_objects (map (\<lambda>c. if c = StrV [] then NaN else c) cs))"
    by (rule no_empty_infer)
  with Object show ?thesis by (auto simp: no_empty_def)
qed (simp_all add: no_empty_typed)

lemma py_str_empty: "py_str c = [] \<Longrightarrow> c = StrV []"
  by (cases c) simp_all

lemma astype_str_nonempty: "no_empty c \<Longrightarrow> s \<in> set (astype_str c) \<Longrightarrow> s \<noteq> []"
  by (cases c)
     (auto simp: no_empty_def Let_def split: option.splits if_splits dest: py_str_empty)

lemma replace_empty_idem [simp]: "replace_empty (replace_empty c) = replace_empty c"
  by (simp add: replace_empty_id)

lemma replace_empty_not_object: "dtype_of c \<noteq> object \<Longrightarrow> replace_empty c = c"
  by (cases c) auto

lemma no_empty_to_str: "no_empty c \<Longrightarrow> no_empty (to_str_column c)"
  using astype_str_nonempty [of c] by (auto simp: no_empty_def to_str_column_def)

lemma to_str_column_fixed:
  "to_str_column (replace_empty (to_str_column (replace_empty c))) = to_str_column (replace_empty c)"
proof -
  have "replace_empty (to_str_column (replace_empty c)) = to_str_column (replace_empty c)"
    by (simp add: replace_empty_id no_empty_to_str)
  then show ?thesis by (simp add: to_str_column_def comp_def)
qed

lemma parse_currency_not_object:
  "\<not> (n = ''WE Range'' \<or> n = ''LT Giving'') \<Longrightarrow> dtype_of (parse_currency n c) \<noteq> object"
  using numeric_to_numeric [of "str_remove '','' (str_remove ''$'' c)"]
  by (auto simp: parse_currency_def numeric_def)

lemma parse_currency_fixed: "dtype_of c \<noteq> object \<Longrightarrow> parse_currency n c = c"
  by (simp add: parse_currency_def)

lemma to_datetime_fixed: "to_datetime P (replace_empty (to_datetime P c)) = to_datetime P c"
  by (cases c) simp_all

theorem normalize_column_idem:
  "normalize_column P n (normalize_column P n c) = normalize_column P n c"
proof -
  consider "n = ''ID''" | "n \<in> set year_cols" | "n \<noteq> ''ID''" "n \<notin> set year_cols" by blast
  then show ?thesis
  proof cases
    case 1
    then show ?thesis by (simp add: normalize_fixed to_str_column_fixed)
  next
    case 2
    then have "normalize_column P n c = to_numeric (replace_empty c)" for c
      by (auto simp: year_cols_def normalize_column_def fixed_names)
    then show ?thesis
      by (simp add: numeric_to_numeric replace_empty_numeric to_numeric_numeric)
  next
    case 3
    show ?thesis
    proof (cases "is_date_name n")
      case True
      with 3 have "normalize_column P n c = to_datetime P (replace_empty c)" for c
        by (simp add: normalize_column_def is_amount_name_def)
      then show ?thesis by (simp add: to_datetime_fixed)
    next
      case False
      show ?thesis
      proof (cases "is_amount_name n")
        case True
        then have sp: "\<not> (n = ''WE Range'' \<or> n = ''LT Giving'')"
          using fixed_names by auto
        from 3 False True have eq: "normalize_column P n c = parse_currency n (replace_empty c)" for c
          by (simp add: normalize_column_def)
        have "dtype_of (parse_currency n (replace_empty c)) \<noteq> object"
          using sp by (rule parse_currency_not_object)
        then show ?thesis
          by (simp add: eq replace_empty_not_object parse_currency_fixed)
      next
        case na: False
        with 3 False have "normalize_column P n c = replace_empty c" for c
          by (simp add: normalize_column_def)
        then show ?thesis by simp
      qed
    qed
  qed
qed

lemma fillna_unknown_idem [simp]: "fillna_unknown (fillna_unknown c) = fillna_unknown c"
proof (cases c)
  case (Object cs)
  then show ?thesis by (auto simp: comp_def)
next
  case (Float64 rs)
  have "map (\<lambda>c. if c = NaN then StrV ''Unknown'' else c)
          (map (\<lambda>r. case r of None \<Rightarrow> StrV ''Unknown'' | Some x \<Rightarrow> FloatV x) rs)
        = map (\<lambda>r. case r of None \<Rightarrow> StrV ''Unknown'' | Some x \<Rightarrow> FloatV x) rs"
    by (induction rs) (auto split: option.splits)
  with Float64 show ?thesis by simp
next
  case (Datetime ts)
  have "map (\<lambda>c. if c = NaN then StrV ''Unknown'' else c)
          (map (\<lambda>t. case t of None \<Rightarrow> StrV ''Unknown'' | Some d \<Rightarrow> TsV d) ts)
        = map (\<lambda>t. case t of None \<Rightarrow> StrV ''Unknown'' | Some d \<Rightarrow> TsV d) ts"
    by (induction ts) (auto split: option.splits)
  with Datetime show ?thesis by simp
qed simp

lemma no_empty_fillna: "no_empty c \<Longrightarrow> no_empty (fillna_unknown c)"
  by (cases c) (auto simp: no_empty_def split: option.splits)

lemma replace_empty_fillna:
  "replace_empty (fillna_unknown (replace_empty c)) = fillna_unknown (replace_empty c)"
  by (simp add: replace_empty_id no_empty_fillna)

lemma decade_labels_nonempty: "s \<in> set (decade_labels c) \<Longrightarrow> s \<noteq> []"
  by (cases c) (auto split: option.splits)

lemma no_empty_decade: "no_empty (decade_column c)"
proof (cases "col_length c = 0")
  case True
  then have "cells_of c = []" by (cases c) simp_all
  with True show ?thesis by (simp add: decade_column_def no_empty_def)
next
  case False
  then show ?thesis
    using decade_labels_nonempty [of _ c] by (auto simp: decade_column_def no_empty_def)
qed

lemma replace_empty_decade: "replace_empty (decade_column c) = decade_column c"
  by (simp add: replace_empty_id no_empty_decade)


subsection \<open>The total\<close>

lemma those_map_Some: "(\<And>x. x \<in> set xs \<Longrightarrow> f x = Some (g x)) \<Longrightarrow> those (map f xs) = Some (map g xs)"
  by (induction xs) auto

lemma amounts_numeric: "float_values c = Some rs \<Longrightarrow> amounts c = map skipna rs"
  by (cases c) (auto simp: amounts_def skipna_def comp_def split: option.splits)

lemma frame_sum_numeric:
  assumes "\<And>c. c \<in> set cs \<Longrightarrow> numeric c"
  shows "frame_sum cs = Inr (total_column cs)"
proof (cases "those (map int_values cs)")
  case (Some nss)
  then show ?thesis by (simp add: frame_sum_def total_column_def)
next
  case None
  have fv: "float_values c = Some (the (float_values c))" if "c \<in> set cs" for c
    using assms [OF that] by (auto simp: numeric_cases)
  then have th: "those (map float_values cs) = Some (map (the \<circ> float_values) cs)"
    by (intro those_map_Some) simp
  have "map skipna (the (float_values c)) = amounts c" if "c \<in> set cs" for c
    using amounts_numeric [OF fv [OF that]] by simp
  then have "map (map skipna) (map (the \<circ> float_values) cs) = map amounts cs"
    by simp
  with None th show ?thesis by (simp only: frame_sum_def total_column_def option.case)
qed

lemma numeric_total_column: "numeric (total_column cs)"
  by (simp add: total_column_def numeric_def split: option.splits)

lemma giving_columns_frame:
  assumes "\<And>n. n \<in> set (columns t) \<Longrightarrow> py_in ''Gifts'' n \<or> py_in ''Gift'' n
             \<Longrightarrow> (n \<in> set dc) = is_date_name n"
  shows "giving_columns dc t = map fst (giving_frame t)"
proof -
  have "filter (\<lambda>(col, c). (py_in ''Gifts'' col \<or> py_in ''Gift'' col) \<and> \<not> py_in ''Pledge'' col
                  \<and> col \<notin> set dc \<and> dtype_of c \<noteq> datetime64) t
      = filter (\<lambda>(n, c). is_giving n c) t"
    using assms by (intro filter_cong) (auto simp: is_giving_def dest: in_columns)
  then show ?thesis by (simp add: giving_columns_def giving_frame_def)
qed

lemma map_filter_lookup:
  "distinct (map fst t) \<Longrightarrow> set xs \<subseteq> set t \<Longrightarrow> List.map_filter (map_of t) (map fst xs) = map snd xs"
  by (induction xs) (auto simp: List.map_filter_simps)

lemma select_frame:
  "distinct (columns t) \<Longrightarrow> select t (map fst (giving_frame t)) = map snd (giving_frame t)"
  unfolding select_def columns_def
  by (rule map_filter_lookup) (auto simp: giving_frame_def)

lemma total_giving_eq:
  assumes "distinct (columns t)"
    and "\<And>n. n \<in> set (columns t) \<Longrightarrow> py_in ''Gifts'' n \<or> py_in ''Gift'' n
             \<Longrightarrow> (n \<in> set dc) = is_date_name n"
    and "\<And>n c. (n, c) \<in> set (giving_frame t) \<Longrightarrow> numeric c"
  shows "total_giving dc t = (with_total t, [])"
proof -
  have "frame_sum (map snd (giving_frame t)) = Inr (total_column (map snd (giving_frame t)))"
    using assms(3) by (intro frame_sum_numeric) auto
  then show ?thesis
    using giving_columns_frame [OF assms(2)] select_frame [OF assms(1)]
    by (simp add: total_giving_def with_total_def Let_def)
qed

lemma giving_frame_assign:
  "\<not> py_in ''Gifts'' k \<Longrightarrow> \<not> py_in ''Gift'' k \<Longrightarrow> giving_frame (assign k v t) = giving_frame t"
  unfolding giving_frame_def assign_def
  by (induction t) (auto simp: is_giving_def)

lemma giving_frame_transform:
  "\<not> py_in ''Gifts'' k \<Longrightarrow> \<not> py_in ''Gift'' k \<Longrightarrow> giving_frame (transform k f t) = giving_frame t"
  unfolding giving_frame_def transform_def
  by (induction t) (auto simp: is_giving_def)

lemma giving_frame_with_decade [simp]: "giving_frame (with_decade t) = giving_frame t"
  by (simp add: with_decade_def giving_frame_assign fixed_names split: option.splits)

lemma giving_frame_fill_state [simp]: "giving_frame (fill_state t) = giving_frame t"
  by (simp add: fill_state_def giving_frame_transform fixed_names)

lemma giving_frame_with_total [simp]: "giving_frame (with_total t) = giving_frame t"
  by (simp add: with_total_def giving_frame_assign fixed_names)

lemma starts_with_append: "starts_with (p @ q) s \<Longrightarrow> starts_with p s"
  by (induction p s rule: starts_with.induct) auto

lemma py_in_append: "py_in (p @ q) s \<Longrightarrow> py_in p s"
  by (induction s) (auto dest: starts_with_append)

lemma gifts_gift: "py_in ''Gifts'' n \<Longrightarrow> py_in ''Gift'' n"
  using py_in_append [of "''Gift''" "''s''" n] by simp

lemma normalize_amount_not_object:
  assumes "is_amount_name n"
  shows "dtype_of (normalize_column P n c) \<noteq> object"
proof -
  from assms have "\<not> (n = ''WE Range'' \<or> n = ''LT Giving'')" using fixed_names by auto
  then show ?thesis using assms
    by (simp add: normalize_column_def Let_def parse_currency_not_object)
qed

lemma giving_normalized_numeric:
  assumes "(n, c) \<in> set (giving_frame (AList.map_ran (normalize_column P) df))"
  shows "numeric c"
proof -
  from assms obtain c0 where c: "c = normalize_column P n c0" and g: "is_giving n c"
    by (auto simp: giving_frame_def AList.map_ran_def)
  from g have "is_amount_name n"
    by (auto simp: is_giving_def is_amount_name_def gifts_gift)
  then have "dtype_of c \<noteq> object" unfolding c by (rule normalize_amount_not_object)
  with g show ?thesis by (cases c) (auto simp: numeric_def is_giving_def)
qed

lemma columns_assign: "set (columns (assign k v t)) = insert k (set (columns t))"
  using AList.dom_update [of k v t] by (simp add: columns_def assign_def)

lemma columns_with_decade: "set (columns (with_decade t)) \<subseteq> insert ''Decade'' (set (columns t))"
  by (auto simp: with_decade_def columns_assign split: option.splits)

lemma columns_fill_state [simp]: "columns (fill_state t) = columns t"
  by (simp add: fill_state_def)

lemma distinct_assign: "distinct (columns t) \<Longrightarrow> distinct (columns (assign k v t))"
  by (simp add: columns_def assign_def AList.distinct_update)

lemma distinct_with_decade: "distinct (columns t) \<Longrightarrow> distinct (columns (with_decade t))"
  by (simp add: with_decade_def distinct_assign split: option.splits)

lemma distinct_with_total: "distinct (columns t) \<Longrightarrow> distinct (columns (with_total t))"
  by (simp add: with_total_def distinct_assign)

lemma distinct_normalized: "distinct (columns df) \<Longrightarrow> distinct (columns (normalized P df))"
  by (simp add: normalized_def distinct_with_total distinct_with_decade)

theorem clean_table_normalized:
  assumes "distinct (columns df)"
  shows "clean_table P df = Inr (normalized P df, [])"
proof -
  let ?t7 = "fill_state (with_decade (AList.map_ran (normalize_column P) df))"
  have d: "distinct (columns ?t7)" using assms by (simp add: distinct_with_decade)
  have dc: "(n \<in> set (date_columns df)) = is_date_name n"
    if "n \<in> set (columns ?t7)" "py_in ''Gifts'' n \<or> py_in ''Gift'' n" for n
  proof -
    from that(2) have "n \<noteq> ''Decade''" using fixed_names by auto
    with that(1) have "n \<in> set (columns df)"
      using columns_with_decade [of "AList.map_ran (normalize_column P) df"] by auto
    then show ?thesis by (simp add: date_columns_def is_date_name_def)
  qed
  have "numeric c" if "(n, c) \<in> set (giving_frame ?t7)" for n c
    using that giving_normalized_numeric by simp
  with d dc have "total_giving (date_columns df) ?t7 = (with_total ?t7, [])"
    by (intro total_giving_eq) auto
  then show ?thesis using clean_table_eq [OF assms, of P] by (simp add: normalized_def)
qed


subsection \<open>Normalizing a normalized table\<close>

lemma set_assign: "set (assign k v t) \<subseteq> insert (k, v) (set t)"
  unfolding assign_def by (induction t) auto

lemma set_transform:
  "(n, c) \<in> set (transform k f t) \<Longrightarrow> (n, c) \<in> set t \<or> (n = k \<and> (\<exists>c0. (k, c0) \<in> set t \<and> c = f c0))"
  unfolding transform_def by (induction t) (auto split: if_splits)

lemma map_of_assign: "map_of (assign k v t) n = (if n = k then Some v else map_of t n)"
  by (simp add: assign_def AList.update_conv')

lemma assign_triv: "map_of t k = Some v \<Longrightarrow> assign k v t = t"
  by (simp add: assign_def AList.update_triv)

lemma map_ran_id: "(\<And>n c. (n, c) \<in> set t \<Longrightarrow> f n c = c) \<Longrightarrow> AList.map_ran f t = t"
  by (induction t) (auto simp: AList.map_ran_def)

lemma map_of_fill_state:
  "map_of (fill_state t) n = (if n = ''State'' then map_option fillna_unknown (map_of t n) else map_of t n)"
  using guarded_transform [of "''State''" t fillna_unknown]
  by (simp add: fill_state_def map_of_transform)

lemma map_of_with_decade:
  "map_of (with_decade t) n =
     (case map_of t ''CL YR'' of
        None \<Rightarrow> map_of t n
      | Some y \<Rightarrow> if n = ''Decade'' then Some (decade_column y) else map_of t n)"
  by (simp add: with_decade_def map_of_assign split: option.splits)

lemma map_of_with_total:
  "map_of (with_total t) n =
     (if giving_frame t \<noteq> [] \<and> n = ''Total_All_Giving''
      then Some (total_column (map snd (giving_frame t))) else map_of t n)"
  by (simp add: with_total_def map_of_assign)

lemma normalized_elements:
  assumes "(n, c) \<in> set (normalized P df)"
  shows "(n = ''Total_All_Giving'' \<and> numeric c)
       \<or> (n = ''State'' \<and> (\<exists>c0. c = fillna_unknown (replace_empty c0)))
       \<or> (n = ''Decade'' \<and> (\<exists>y. c = decade_column y))
       \<or> (\<exists>c0. c = normalize_column P n c0)"
proof -
  let ?t5 = "AList.map_ran (normalize_column P) df"
  have e5: "\<exists>c0. c = normalize_column P n c0" if "(n, c) \<in> set ?t5" for n c
    using that by (auto simp: AList.map_ran_def)
  have e6: "(n = ''Decade'' \<and> (\<exists>y. c = decade_column y)) \<or> (n, c) \<in> set ?t5"
    if "(n, c) \<in> set (with_decade ?t5)" for n c
    using that set_assign [of "''Decade''" _ ?t5]
    by (auto simp: with_decade_def split: option.splits)
  have e7: "(n = ''State'' \<and> (\<exists>c0. c = fillna_unknown (replace_empty c0)))
      \<or> (n = ''Decade'' \<and> (\<exists>y. c = decade_column y))
      \<or> (\<exists>c0. c = normalize_column P n c0)"
    if "(n, c) \<in> set (fill_state (with_decade ?t5))" for n c
  proof -
    from that consider "(n, c) \<in> set (with_decade ?t5)"
      | c1 where "n = ''State''" "(''State'', c1) \<in> set (with_decade ?t5)" "c = fillna_unknown c1"
      using set_transform [of n c "''State''" fillna_unknown "with_decade ?t5"]
      by (auto simp: fill_state_def split: if_splits)
    then show ?thesis
    proof cases
      case 1
      then show ?thesis using e6 e5 by blast
    next
      case 2
      from e6 [OF 2(2)] have "(''State'', c1) \<in> set ?t5" by auto
      then obtain c0 where "c1 = normalize_column P ''State'' c0" using e5 by blast
      with 2 show ?thesis by (auto simp: normalize_fixed)
    qed
  qed
  from assms consider "(n, c) \<in> set (fill_state (with_decade ?t5))"
    | "n = ''Total_All_Giving''" "c = total_column (map snd (giving_frame (fill_state (with_decade ?t5))))"
    using set_assign [of "''Total_All_Giving''" _ "fill_state (with_decade ?t5)"]
    by (auto simp: normalized_def with_total_def split: if_splits)
  then show ?thesis
  proof cases
    case 1
    then show ?thesis using e7 by blast
  next
    case 2
    then show ?thesis by (simp add: numeric_total_column)
  qed
qed

lemma normalized_columns_fixed:
  assumes "(n, c) \<in> set (normalized P df)"
  shows "normalize_column P n c = c"
  using normalized_elements [OF assms]
  by (auto simp add: normalize_fixed replace_empty_numeric replace_empty_fillna
        replace_empty_decade normalize_column_idem simp del: replace_empty.simps)

theorem normalized_idem:
  "normalized P (normalized P df) = normalized P df"
proof -
  let ?t5 = "AList.map_ran (normalize_column P) df"
  let ?t = "normalized P df"
  have 1: "AList.map_ran (normalize_column P) ?t = ?t"
    by (rule map_ran_id) (rule normalized_columns_fixed)
  have 2: "with_decade ?t = ?t"
  proof (cases "map_of df ''CL YR''")
    case None
    then have "map_of ?t ''CL YR'' = None"
      by (simp add: normalized_def map_of_with_total map_of_fill_state map_of_with_decade map_of_map_ran)
    then show ?thesis by (simp add: with_decade_def)
  next
    case (Some c0)
    let ?y = "normalize_column P ''CL YR'' c0"
    from Some have "map_of ?t ''CL YR'' = Some ?y"
      by (simp add: normalized_def map_of_with_total map_of_fill_state map_of_with_decade map_of_map_ran)
    moreover from Some have "map_of ?t ''Decade'' = Some (decade_column ?y)"
      by (simp add: normalized_def map_of_with_total map_of_fill_state map_of_with_decade map_of_map_ran)
    ultimately show ?thesis by (simp add: with_decade_def assign_triv)
  qed
  have 3: "fill_state ?t = ?t"
  proof -
    have "fillna_unknown c = c" if "map_of ?t ''State'' = Some c" for c
      using that
      by (auto simp: normalized_def map_of_with_total map_of_fill_state)
    then have "transform ''State'' fillna_unknown ?t = ?t" by (rule transform_id)
    then show ?thesis by (simp add: fill_state_def)
  qed
  have 4: "with_total ?t = ?t"
  proof (cases "giving_frame ?t = []")
    case True
    then show ?thesis by (simp add: with_total_def)
  next
    case False
    have g: "giving_frame ?t = giving_frame ?t5" by (simp add: normalized_def)
    with False have "map_of ?t ''Total_All_Giving'' = Some (total_column (map snd (giving_frame ?t)))"
      by (simp add: normalized_def map_of_with_total)
    then show ?thesis by (simp add: with_total_def assign_triv)
  qed
  have "normalized P ?t = with_total (fill_state (with_decade (AList.map_ran (normalize_column P) ?t)))"
    by (simp add: normalized_def)
  also have "\<dots> = ?t" by (simp only: 1 2 3 4)
  finally show ?thesis .
qed

theorem clean_table_idem:
  assumes "distinct (columns df)"
  shows "\<exists>t. clean_table P df = Inr (t, []) \<and> clean_table P t = Inr (t, [])"
  using clean_table_normalized [OF assms, of P]
    clean_table_normalized [OF distinct_normalized [OF assms], of P P]
  by (simp add: normalized_idem)

subsection \<open>Tables in the state\<close>

lemma frames_modify [simp]: "frames (modify a f w) = (frames w)[a := f (frames w ! a)]"
  by (simp add: modify_def)

lemma warnings_modify [simp]: "warnings (modify a f w) = warnings w"
  by (simp add: modify_def)

lemma errors_modify [simp]: "errors (modify a f w) = errors w"
  by (simp add: modify_def)

lemma clean_data_result:
  assumes "df < length (frames w)"
  shows "clean_data P df w =
     (case clean_table P (frames w ! df) of
        Inl e \<Rightarrow> (Inl e, snd (clean_data P df w))
      | Inr (t, msgs) \<Rightarrow>
          (Inr (length (frames w)),
           w\<lparr>frames := frames w @ [t], warnings := warnings w @ msgs\<rparr>))"
  using assms
  by (simp add: clean_data_def clean_table_def Let_def modify_def nth_append
      split: sum.splits prod.splits)

lemma take_frames_modify:
  "n \<le> a \<Longrightarrow> take n (frames (modify a f w)) = take n (frames w)"
  by simp

text \<open>
  C10. \<open>clean_data\<close> leaves every table of the caller as it was, its argument included:
  the tables that existed before the call are unchanged after it, whichever rules fired
  and also when the call raises; the table it returns is a new one, not the argument.
\<close>

theorem clean_data_frame:
  "take (length (frames w)) (frames (snd (clean_data P df w))) = frames w
   \<and> errors (snd (clean_data P df w)) = errors w
   \<and> (\<forall>a. fst (clean_data P df w) = Inr a \<longrightarrow> a = length (frames w) \<and> a \<noteq> df)"
  by (simp add: clean_data_def Let_def split: sum.splits prod.splits)

subsection \<open>Row sums\<close>

lemma sum_rows_nth:
  "xss \<noteq> [] \<Longrightarrow> (\<And>xs. xs \<in> set xss \<Longrightarrow> length xs = m) \<Longrightarrow>
   length (sum_rows xss) = m \<and> (\<forall>i<m. sum_rows xss ! i = sum_list (map (\<lambda>xs. xs ! i) xss))"
  by (induction xss rule: sum_rows.induct) auto

lemma map2_of_int:
  "map real_of_int (map2 (+) xs ys) = map2 (+) (map real_of_int xs) (map real_of_int ys)"
  by (induction xs ys rule: list_induct2') auto

lemma sum_rows_of_int:
  "map real_of_int (sum_rows nss) = sum_rows (map (map real_of_int) nss)"
proof (induction nss rule: sum_rows.induct)
  case (3 c d cs)
  then show ?case by (simp only: sum_rows.simps list.map map2_of_int)
qed simp_all

lemma those_int_values: "those (map int_values cs) = Some nss \<Longrightarrow> cs = map Int64 nss"
proof (induction cs arbitrary: nss)
  case Nil
  then show ?case by simp
next
  case (Cons c cs)
  then show ?case by (cases c) (auto split: option.splits)
qed

lemma amounts_Int64 [simp]: "amounts (Int64 ns) = map real_of_int ns"
  by (simp add: amounts_def comp_def)

lemma amounts_Float64_Some [simp]: "amounts (Float64 (map Some xs)) = xs"
  by (simp add: amounts_def comp_def)

lemma length_amounts [simp]: "length (amounts c) = col_length c"
  by (cases c) (simp_all add: amounts_def)

lemma sum_list_of_int: "real_of_int (sum_list ns) = sum_list (map real_of_int ns)"
  by (induction ns) auto

lemma those_int_values_None:
  "those (map int_values cs) = None \<Longrightarrow> \<not> list_all (\<lambda>c. dtype_of c = int64) cs"
proof (induction cs)
  case Nil
  then show ?case by simp
next
  case (Cons c cs)
  then show ?case by (cases c) (auto split: option.splits)
qed

lemma wrap64_id: "in_int64 n \<Longrightarrow> wrap64 n = n"
  by (simp add: wrap64_def in_int64_def)

lemma total_column_nth:
  assumes "cs \<noteq> []" and "\<And>c. c \<in> set cs \<Longrightarrow> col_length c = m"
  shows "length (amounts (total_column cs)) = m
     \<and> (\<forall>i<m. amounts (total_column cs) ! i
           = (if list_all (\<lambda>c. dtype_of c = int64) cs
              then of_int (wrap64 \<lfloor>\<Sum>c\<leftarrow>cs. amounts c ! i\<rfloor>)
              else (\<Sum>c\<leftarrow>cs. amounts c ! i)))"
proof (cases "those (map int_values cs)")
  case None
  have len: "length xs = m" if "xs \<in> set (map amounts cs)" for xs
    using that assms(2) by auto
  have "length (sum_rows (map amounts cs)) = m
     \<and> (\<forall>i<m. sum_rows (map amounts cs) ! i = sum_list (map (\<lambda>xs. xs ! i) (map amounts cs)))"
    using assms(1) len by (intro sum_rows_nth) auto
  with None those_int_values_None [OF None] show ?thesis
    by (simp add: total_column_def comp_def)
next
  case (Some nss)
  then have cs: "cs = map Int64 nss" by (rule those_int_values)
  then have all: "list_all (\<lambda>c. dtype_of c = int64) cs" by (simp add: list_all_iff)
  have len: "length ns = m" if "ns \<in> set nss" for ns
    using that assms(2) [of "Int64 ns"] cs by auto
  have ne: "nss \<noteq> []" using assms(1) cs by auto
  have rows: "length (sum_rows nss) = m
     \<and> (\<forall>i<m. sum_rows nss ! i = sum_list (map (\<lambda>ns. ns ! i) nss))"
    using ne len by (intro sum_rows_nth) auto
  have "\<lfloor>\<Sum>c\<leftarrow>cs. amounts c ! i\<rfloor> = sum_list (map (\<lambda>ns. ns ! i) nss)" if "i < m" for i
  proof -
    have "map (\<lambda>c. amounts c ! i) cs = map (\<lambda>ns. real_of_int (ns ! i)) nss"
      unfolding cs using len that by (simp add: comp_def)
    then have "(\<Sum>c\<leftarrow>cs. amounts c ! i) = real_of_int (sum_list (map (\<lambda>ns. ns ! i) nss))"
      by (simp add: comp_def sum_list_of_int)
    then show ?thesis by simp
  qed
  with Some all rows show ?thesis
    by (simp add: total_column_def comp_def)
qed

lemma length_astype_str [simp]: "length (astype_str c) = col_length c"
  by (cases c) (simp_all add: Let_def)

lemma col_length_to_numeric [simp]: "col_length (to_numeric c) = col_length c"
  by (cases c) (simp_all add: numeric_column_def)

lemma col_length_infer [simp]: "col_length (infer_objects cs) = length cs"
  by (simp add: infer_objects_def)

lemma col_length_replace_empty [simp]: "col_length (replace_empty c) = col_length c"
  by (cases c) simp_all

lemma col_length_to_datetime [simp]: "col_length (to_datetime P c) = col_length c"
  by (cases c) simp_all

lemma col_length_to_str_column [simp]: "col_length (to_str_column c) = col_length c"
  by (simp add: to_str_column_def)

lemma col_length_str_remove [simp]: "col_length (str_remove old c) = col_length c"
  by (simp add: str_remove_def)

lemma col_length_parse_currency [simp]: "col_length (parse_currency n c) = col_length c"
  by (simp add: parse_currency_def)

lemma col_length_normalize [simp]: "col_length (normalize_column P n c) = col_length c"
  by (simp add: normalize_column_def Let_def)


subsection \<open>Total giving\<close>

lemma giving_frame_normalized:
  "giving_frame (normalized P df) = giving_frame (AList.map_ran (normalize_column P) df)"
  by (simp add: normalized_def)

lemma giving_lengths:
  assumes "list_all (\<lambda>(n, c). col_length c = m) df"
    and "(n, c) \<in> set (giving_frame (normalized P df))"
  shows "col_length c = m"
proof -
  from assms(2) have "(n, c) \<in> set (giving_frame (AList.map_ran (normalize_column P) df))"
    by (simp only: giving_frame_normalized)
  then obtain c0 where "(n, c0) \<in> set df" "c = normalize_column P n c0"
    by (auto simp: giving_frame_def AList.map_ran_def)
  with assms(1) show ?thesis by (auto simp: list_all_iff)
qed

lemma total_lookup:
  "giving_frame (normalized P df) \<noteq> [] \<Longrightarrow>
   map_of (normalized P df) ''Total_All_Giving''
     = Some (total_column (map snd (giving_frame (normalized P df))))"
  by (simp add: normalized_def map_of_with_total)

lemma map_ran_assign:
  "AList.map_ran f (assign k v t) = assign k (f k v) (AList.map_ran f t)"
  unfolding assign_def by (induction t) (auto simp: AList.map_ran_def)

lemma giving_frame_assign_excluded:
  "(\<And>c. \<not> is_giving k c) \<Longrightarrow> giving_frame (assign k v t) = giving_frame t"
  unfolding giving_frame_def assign_def by (induction t) auto

lemma giving_frame_assign_same:
  "(\<And>c. (k, c) \<in> set t \<Longrightarrow> \<not> is_giving k c) \<Longrightarrow> \<not> is_giving k v \<Longrightarrow>
   giving_frame (assign k v t) = giving_frame t"
  unfolding giving_frame_def assign_def by (induction t) auto

lemma total_unaffected:
  assumes "n \<noteq> ''Total_All_Giving''"
    and "giving_frame (assign n (normalize_column P n c') (AList.map_ran (normalize_column P) df))
           = giving_frame (AList.map_ran (normalize_column P) df)"
  shows "map_of (normalized P (assign n c' df)) ''Total_All_Giving''
       = map_of (normalized P df) ''Total_All_Giving''"
proof -
  let ?t5 = "AList.map_ran (normalize_column P) df"
  let ?v = "normalize_column P n c'"
  have "map_of (fill_state (with_decade (assign n ?v ?t5))) ''Total_All_Giving''
      = map_of (fill_state (with_decade ?t5)) ''Total_All_Giving''"
    using assms(1)
    by (simp add: map_of_fill_state map_of_with_decade map_of_assign split: option.splits)
  with assms(2) show ?thesis
    by (simp add: normalized_def map_ran_assign map_of_with_total)
qed

lemma total_without_pledges_and_dates:
  assumes "py_in ''Pledge'' n \<or> is_date_name n"
  shows "map_of (normalized P (assign n c' df)) ''Total_All_Giving''
       = map_of (normalized P df) ''Total_All_Giving''"
proof -
  from assms have ex: "\<not> is_giving n c" for c by (auto simp: is_giving_def)
  from assms have nT: "n \<noteq> ''Total_All_Giving''" using fixed_names by auto
  show ?thesis
    using nT by (rule total_unaffected) (simp add: giving_frame_assign_excluded ex)
qed

lemma gift_names:
  assumes "py_in ''Gift'' n"
  shows "n \<noteq> ''ID''" "n \<notin> set year_cols" "n \<noteq> ''Total_All_Giving''"
  using assms by (auto simp: year_cols_def)

lemma normalize_datetime_gift:
  assumes "py_in ''Gift'' n"
  shows "normalize_column P n (Datetime ts) = Datetime ts"
  using gift_names [OF assms]
  by (simp add: normalize_column_def parse_currency_def Let_def)

lemma total_without_datetimes:
  assumes "distinct (columns df)" and "py_in ''Gift'' n" and "map_of df n = Some (Datetime ts)"
  shows "map_of (normalized P (assign n (Datetime ts') df)) ''Total_All_Giving''
       = map_of (normalized P df) ''Total_All_Giving''"
proof -
  let ?t5 = "AList.map_ran (normalize_column P) df"
  have old: "\<not> is_giving n c" if "(n, c) \<in> set ?t5" for c
  proof -
    have "distinct (map fst ?t5)" using assms(1) by (simp add: columns_def)
    with that have "map_of ?t5 n = Some c" by simp
    with assms(3) have "c = normalize_column P n (Datetime ts)"
      by (simp add: map_of_map_ran)
    then show ?thesis by (simp add: normalize_datetime_gift [OF assms(2)] is_giving_def)
  qed
  have new: "\<not> is_giving n (normalize_column P n (Datetime ts'))"
    by (simp add: normalize_datetime_gift [OF assms(2)] is_giving_def)
  show ?thesis
    using gift_names(3) [OF assms(2)]
    by (rule total_unaffected) (rule giving_frame_assign_same [OF old new])
qed

lemma row_total_nonneg:
  assumes "0 \<le> x" and "x < 2 ^ 63"
  shows "0 \<le> row_total g x"
proof -
  from assms have "0 \<le> \<lfloor>x\<rfloor>" "\<lfloor>x\<rfloor> < 2 ^ 63"
    by (simp_all add: floor_less_iff)
  then have "wrap64 \<lfloor>x\<rfloor> = \<lfloor>x\<rfloor>" by (intro wrap64_id) (simp add: in_int64_def)
  with assms(1) show ?thesis by (simp add: row_total_def)
qed

text \<open>
  C2, amended. For a table with distinct column names and columns of one length,
  normalizing raises no warning, and when the normalized table has a giving-amount column
  (name contains "Gift" or "Gifts" and not "Pledge", and neither "Date" nor "date", not
  of datetime type), \<open>Total_All_Giving\<close> is on every row the sum over exactly those
  columns, a missing value counting as zero. When all of them are \<open>int64\<close> columns the
  sum is a 64-bit integer and wraps around; so the total of a row is non-negative when
  all the summed amounts of the row are and their sum is below \<open>2^63\<close>, and it can be
  negative otherwise. Replacing a column whose name contains "Pledge", "Date" or "date"
  never changes \<open>Total_All_Giving\<close>, and neither does replacing the values of a
  datetime-typed column whose name contains "Gift" by other timestamps.
\<close>

theorem total_all_giving_row_sum:
  assumes "distinct (columns df)"
    and "list_all (\<lambda>(n, c). col_length c = m) df"
    and "clean_table P df = Inr (t, msgs)"
  shows "msgs = []
     \<and> (giving_frame t \<noteq> [] \<longrightarrow>
          (\<exists>tot. map_of t ''Total_All_Giving'' = Some tot \<and> length (amounts tot) = m
             \<and> (\<forall>i<m. amounts tot ! i
                         = row_total (giving_frame t) (\<Sum>(n, c)\<leftarrow>giving_frame t. amounts c ! i))
             \<and> (\<forall>i<m. (\<forall>(n, c)\<in>set (giving_frame t). 0 \<le> amounts c ! i)
                         \<and> (\<Sum>(n, c)\<leftarrow>giving_frame t. amounts c ! i) < 2 ^ 63
                       \<longrightarrow> 0 \<le> amounts tot ! i)))
     \<and> (\<forall>n c'. py_in ''Pledge'' n \<or> is_date_name n \<longrightarrow>
          (\<exists>t'. clean_table P (assign n c' df) = Inr (t', [])
             \<and> map_of t' ''Total_All_Giving'' = map_of t ''Total_All_Giving''))
     \<and> (\<forall>n ts ts'. py_in ''Gift'' n \<and> map_of df n = Some (Datetime ts) \<longrightarrow>
          (\<exists>t'. clean_table P (assign n (Datetime ts') df) = Inr (t', [])
             \<and> map_of t' ''Total_All_Giving'' = map_of t ''Total_All_Giving''))"
proof -
  from assms(1,3) have t: "t = normalized P df" and m: "msgs = []"
    using clean_table_normalized [of df P] by simp_all
  let ?G = "giving_frame t"
  let ?S = "\<lambda>i. \<Sum>(n, c)\<leftarrow>?G. amounts c ! i"
  have sum: "\<exists>tot. map_of t ''Total_All_Giving'' = Some tot \<and> length (amounts tot) = m
             \<and> (\<forall>i<m. amounts tot ! i = row_total ?G (?S i))
             \<and> (\<forall>i<m. (\<forall>(n, c)\<in>set ?G. 0 \<le> amounts c ! i) \<and> ?S i < 2 ^ 63
                       \<longrightarrow> 0 \<le> amounts tot ! i)"
    if ne: "?G \<noteq> []"
  proof -
    let ?tot = "total_column (map snd ?G)"
    have look: "map_of t ''Total_All_Giving'' = Some ?tot"
      using ne unfolding t by (rule total_lookup)
    have len: "col_length c = m" if "c \<in> set (map snd ?G)" for c
      using that giving_lengths [OF assms(2), of _ c P] unfolding t by auto
    have ne': "map snd ?G \<noteq> []" using ne by simp
    have sums: "(\<Sum>c\<leftarrow>map snd ?G. amounts c ! i) = ?S i" for i
      by (simp add: comp_def case_prod_unfold)
    have all: "list_all (\<lambda>c. dtype_of c = int64) (map snd ?G)
             = list_all (\<lambda>(n, c). dtype_of c = int64) ?G"
      by (simp add: list_all_iff case_prod_unfold)
    have "length (amounts ?tot) = m
       \<and> (\<forall>i<m. amounts ?tot ! i
             = (if list_all (\<lambda>c. dtype_of c = int64) (map snd ?G)
                then of_int (wrap64 \<lfloor>\<Sum>c\<leftarrow>map snd ?G. amounts c ! i\<rfloor>)
                else (\<Sum>c\<leftarrow>map snd ?G. amounts c ! i)))"
      using ne' len by (rule total_column_nth)
    then have tc: "length (amounts ?tot) = m
       \<and> (\<forall>i<m. amounts ?tot ! i = row_total ?G (?S i))"
      unfolding row_total_def sums all .
    then have length: "length (amounts ?tot) = m"
      and nth: "\<forall>i<m. amounts ?tot ! i = row_total ?G (?S i)"
      by blast+
    have nonneg: "0 \<le> amounts ?tot ! i"
      if "i < m" and pos: "\<forall>(n, c)\<in>set ?G. 0 \<le> amounts c ! i" and small: "?S i < 2 ^ 63" for i
    proof -
      have "0 \<le> ?S i" using pos by (intro sum_list_nonneg) auto
      then have "0 \<le> row_total ?G (?S i)" using small by (rule row_total_nonneg)
      with nth that(1) show ?thesis by simp
    qed
    from look length nth nonneg show ?thesis by blast
  qed
  have inv: "\<exists>t'. clean_table P (assign n c' df) = Inr (t', [])
             \<and> map_of t' ''Total_All_Giving'' = map_of t ''Total_All_Giving''"
    if "py_in ''Pledge'' n \<or> is_date_name n" for n c'
  proof -
    have "distinct (columns (assign n c' df))" using assms(1) by (rule distinct_assign)
    then have "clean_table P (assign n c' df) = Inr (normalized P (assign n c' df), [])"
      by (rule clean_table_normalized)
    with total_without_pledges_and_dates [OF that, of P c' df] show ?thesis by (simp add: t)
  qed
  have inv2: "\<exists>t'. clean_table P (assign n (Datetime ts') df) = Inr (t', [])
             \<and> map_of t' ''Total_All_Giving'' = map_of t ''Total_All_Giving''"
    if "py_in ''Gift'' n \<and> map_of df n = Some (Datetime ts)" for n ts ts'
  proof -
    have "distinct (columns (assign n (Datetime ts') df))" using assms(1) by (rule distinct_assign)
    then have "clean_table P (assign n (Datetime ts') df)
        = Inr (normalized P (assign n (Datetime ts') df), [])"
      by (rule clean_table_normalized)
    with total_without_datetimes [OF assms(1), of n ts P ts'] that show ?thesis by (simp add: t)
  qed
  from m sum inv inv2 show ?thesis by blast
qed

subsection \<open>Currency\<close>

lemma py_replace_single: "py_replace [x] [] s = filter (\<lambda>ch. ch \<noteq> x) s"
  by (induction s) auto

lemma float_values_numeric_column: "float_values (numeric_column ns) = Some (map num_value ns)"
proof -
  have "map (\<lambda>n. Some (real_of_int (nint n))) ns = map num_value ns" if "list_all is_nint ns"
    using that by (induction ns) (auto elim: is_nint.elims)
  then show ?thesis by (simp add: numeric_column_def comp_def)
qed

lemma parse_missing: "parse_number [] = NNull \<and> parse_number ''nan'' = NNull"
  by code_simp

lemma amount_column_parsed:
  assumes "is_amount_name n"
  shows "normalize_column P n (Object cs)
       = (if StrV [] \<in> set cs \<and> list_all is_number (map (\<lambda>c. if c = StrV [] then NaN else c) cs)
             \<and> ints_fit (map (\<lambda>c. if c = StrV [] then NaN else c) cs)
          then Float64 (map as_float (map (\<lambda>c. if c = StrV [] then NaN else c) cs))
          else numeric_column
                 (map (\<lambda>c. parse_number (without_symbols (py_str (if c = StrV [] then NaN else c)))) cs))"
proof -
  let ?f = "\<lambda>c. if c = StrV [] then NaN else c"
  from assms have n: "n \<noteq> ''ID''" "n \<notin> set year_cols" "\<not> is_date_name n"
    "\<not> (n = ''WE Range'' \<or> n = ''LT Giving'')"
    using fixed_names by (auto simp: year_cols_def is_amount_name_def)
  with assms have eq: "normalize_column P n (Object cs) = parse_currency n (replace_empty (Object cs))"
    by (simp add: normalize_column_def)
  have parsed: "to_numeric (str_remove '','' (str_remove ''$'' (Object xs)))
      = numeric_column (map (\<lambda>c. parse_number (without_symbols (py_str c))) xs)" for xs
    by (simp add: str_remove_def comp_def py_replace_single without_symbols_def)
  let ?g = "\<lambda>c. parse_number (without_symbols (py_str (?f c)))"
  show ?thesis
  proof (cases "StrV [] \<in> set cs")
    case False
    have "parse_currency n (replace_empty (Object cs))
        = numeric_column (map (\<lambda>c. parse_number (without_symbols (py_str c))) cs)"
      using False n by (simp add: parse_currency_def parsed)
    also have "map (\<lambda>c. parse_number (without_symbols (py_str c))) cs = map ?g cs"
      using False by (intro map_cong) auto
    finally have "normalize_column P n (Object cs) = numeric_column (map ?g cs)"
      unfolding eq .
    with False show ?thesis by simp
  next
    case True
    show ?thesis
    proof (cases "list_all is_number (map ?f cs) \<and> ints_fit (map ?f cs)")
      case t: True
      then have "replace_empty (Object cs) = Float64 (map as_float (map ?f cs))"
        using True by (simp add: infer_objects_def)
      then have "normalize_column P n (Object cs) = Float64 (map as_float (map ?f cs))"
        unfolding eq by (simp add: parse_currency_def)
      with True t show ?thesis by simp
    next
      case False
      then have "replace_empty (Object cs) = Object (map ?f cs)"
        using True by (auto simp: infer_objects_def)
      then have "parse_currency n (replace_empty (Object cs))
          = numeric_column (map (\<lambda>c. parse_number (without_symbols (py_str c))) (map ?f cs))"
        using n by (simp add: parse_currency_def parsed)
      also have "map (\<lambda>c. parse_number (without_symbols (py_str c))) (map ?f cs) = map ?g cs"
        by simp
      finally have "normalize_column P n (Object cs) = numeric_column (map ?g cs)"
        unfolding eq .
      with False show ?thesis by auto
    qed
  qed
qed

lemma amount_lookup:
  assumes "is_amount_name n"
  shows "map_of (normalized P df) n = map_option (normalize_column P n) (map_of df n)"
proof -
  from assms have "n \<noteq> ''Total_All_Giving''" "n \<noteq> ''State''" "n \<noteq> ''Decade''"
    using fixed_names by auto
  then show ?thesis
    by (simp add: normalized_def map_of_with_total map_of_fill_state map_of_with_decade
        map_of_map_ran split: option.splits)
qed

theorem currency_parsing:
  assumes "distinct (columns df)"
    and "map_of df n = Some (Object cs)"
    and "py_in ''Gift'' n \<or> py_in ''Ask'' n"
    and "\<not> py_in ''Date'' n" and "\<not> py_in ''date'' n"
    and "clean_table P df = Inr (t, msgs)"
  shows "\<exists>c vs. map_of t n = Some c \<and> dtype_of c \<noteq> object \<and> float_values c = Some vs
           \<and> length vs = length cs
           \<and> (\<forall>i<length cs. \<forall>s. cs ! i = StrV s \<longrightarrow>
                 vs ! i = num_value (parse_number (without_symbols s)))
           \<and> (\<forall>i<length cs. cs ! i = NaN \<longrightarrow> vs ! i = None)"
proof -
  from assms(3-5) have a: "is_amount_name n" by (simp add: is_amount_name_def is_date_name_def)
  let ?r = "\<lambda>c. if c = StrV [] then NaN else c"
  let ?f = "\<lambda>c. parse_number (without_symbols (py_str (?r c)))"
  from assms(1,6) have "t = normalized P df" using clean_table_normalized [of df P] by simp
  with assms(2) a have look: "map_of t n = Some (normalize_column P n (Object cs))"
    by (simp add: amount_lookup)
  show ?thesis
  proof (cases "StrV [] \<in> set cs \<and> list_all is_number (map ?r cs) \<and> ints_fit (map ?r cs)")
    case False
    let ?c = "numeric_column (map ?f cs)"
    from False a have c: "normalize_column P n (Object cs) = ?c"
      using amount_column_parsed [of n P cs] by auto
    have fv: "float_values ?c = Some (map (num_value \<circ> ?f) cs)"
      by (simp add: float_values_numeric_column)
    have "dtype_of ?c \<noteq> object"
      by (simp add: numeric_column_def)
    moreover have "map (num_value \<circ> ?f) cs ! i = num_value (parse_number (without_symbols s))"
      if "i < length cs" "cs ! i = StrV s" for i s
      using that by (cases "s = []") (simp_all add: parse_missing without_symbols_def)
    moreover have "map (num_value \<circ> ?f) cs ! i = None" if "i < length cs" "cs ! i = NaN" for i
      using that by (simp add: parse_missing without_symbols_def)
    ultimately show ?thesis using look fv c by auto
  next
    case True
    let ?c = "Float64 (map as_float (map ?r cs))"
    from True a have c: "normalize_column P n (Object cs) = ?c"
      using amount_column_parsed [of n P cs] by auto
    have num: "is_number (?r (cs ! i))" if "i < length cs" for i
      using True that by (simp add: list_all_iff)
    have "map as_float (map ?r cs) ! i = num_value (parse_number (without_symbols s))"
      if "i < length cs" "cs ! i = StrV s" for i s
      using that num [OF that(1)]
      by (cases "s = []") (simp_all add: is_number_def as_float_def parse_missing without_symbols_def)
    moreover have "map as_float (map ?r cs) ! i = None" if "i < length cs" "cs ! i = NaN" for i
      using that by (simp add: as_float_def)
    ultimately show ?thesis using look c by auto
  qed
qed


subsection \<open>Idempotence\<close>

lemma no_empty_normalize: "no_empty (normalize_column P n c)"
proof -
  consider "n = ''ID''" | "n \<in> set year_cols" | "n \<noteq> ''ID''" "n \<notin> set year_cols" by blast
  then show ?thesis
  proof cases
    case 1
    then show ?thesis by (simp add: normalize_fixed no_empty_to_str)
  next
    case 2
    then have "normalize_column P n c = to_numeric (replace_empty c)"
      by (auto simp: year_cols_def normalize_column_def fixed_names)
    then show ?thesis
      using numeric_to_numeric [of "replace_empty c"] by (auto simp: numeric_def no_empty_typed)
  next
    case 3
    show ?thesis
    proof (cases "is_date_name n")
      case True
      with 3 have "normalize_column P n c = to_datetime P (replace_empty c)"
        by (simp add: normalize_column_def is_amount_name_def)
      then show ?thesis by (cases "replace_empty c") (simp_all add: no_empty_typed)
    next
      case False
      show ?thesis
      proof (cases "is_amount_name n")
        case True
        then have "dtype_of (normalize_column P n c) \<noteq> object"
          by (rule normalize_amount_not_object)
        then show ?thesis by (rule no_empty_typed)
      next
        case na: False
        with 3 False have "normalize_column P n c = replace_empty c"
          by (simp add: normalize_column_def)
        then show ?thesis by simp
      qed
    qed
  qed
qed

lemma replace_empty_normalize:
  "replace_empty (normalize_column P n c) = normalize_column P n c"
  by (simp add: replace_empty_id no_empty_normalize)

lemma to_str_column_strs: "to_str_column (to_str_column c) = to_str_column c"
  by (simp add: to_str_column_def comp_def)

lemma normalized_rules_fixed:
  assumes "(n, c) \<in> set (normalized P df)"
  shows "replace_empty c = c"
    and "n = ''ID'' \<Longrightarrow> to_str_column c = c"
    and "n \<in> set year_cols \<Longrightarrow> to_numeric c = c"
    and "is_amount_name n \<Longrightarrow> parse_currency n c = c"
proof -
  from normalized_elements [OF assms]
  consider "n = ''Total_All_Giving''" "numeric c"
    | c0 where "n = ''State''" "c = fillna_unknown (replace_empty c0)"
    | y where "n = ''Decade''" "c = decade_column y"
    | c0 where "c = normalize_column P n c0"
    by blast
  then have "replace_empty c = c \<and> (n = ''ID'' \<longrightarrow> to_str_column c = c)
     \<and> (n \<in> set year_cols \<longrightarrow> to_numeric c = c) \<and> (is_amount_name n \<longrightarrow> parse_currency n c = c)"
  proof cases
    case 1
    then show ?thesis using fixed_names by (auto simp: replace_empty_numeric year_cols_def)
  next
    case 2
    then show ?thesis using fixed_names by (auto simp: replace_empty_fillna year_cols_def)
  next
    case 3
    then show ?thesis using fixed_names replace_empty_decade [of y] by (auto simp: year_cols_def)
  next
    case 4
    have "to_str_column c = c" if "n = ''ID''"
      using that 4 by (simp add: normalize_fixed to_str_column_strs)
    moreover have "to_numeric c = c" if "n \<in> set year_cols"
    proof -
      from that have "c = to_numeric (replace_empty c0)"
        using 4 by (auto simp: year_cols_def normalize_column_def fixed_names)
      then show ?thesis using numeric_to_numeric [of "replace_empty c0"] by (simp add: to_numeric_numeric)
    qed
    moreover have "parse_currency n c = c" if "is_amount_name n"
      using normalize_amount_not_object [OF that, of P c0] 4 by (simp add: parse_currency_fixed)
    ultimately show ?thesis using 4 by (simp add: replace_empty_normalize)
  qed
  then show "replace_empty c = c"
    and "n = ''ID'' \<Longrightarrow> to_str_column c = c"
    and "n \<in> set year_cols \<Longrightarrow> to_numeric c = c"
    and "is_amount_name n \<Longrightarrow> parse_currency n c = c"
    by blast+
qed

lemma normalized_rules_noop:
  assumes "distinct (columns df)"
  shows "replace_empty_strings (normalized P df) = normalized P df"
    and "id_to_str (normalized P df) = normalized P df"
    and "years_to_numeric (normalized P df) = normalized P df"
    and "amounts_to_numeric (amount_columns (date_columns (normalized P df)) (normalized P df))
           (normalized P df) = normalized P df"
proof -
  let ?t = "normalized P df"
  have d: "distinct (columns ?t)" using assms by (rule distinct_normalized)
  show "replace_empty_strings ?t = ?t"
    unfolding replace_empty_strings_eq [OF d]
    by (rule map_ran_id) (rule normalized_rules_fixed)
  show "id_to_str ?t = ?t"
    unfolding id_to_str_eq [OF d]
    by (rule map_ran_id) (simp add: normalized_rules_fixed)
  show "years_to_numeric ?t = ?t"
    unfolding years_to_numeric_eq [OF d]
    by (rule map_ran_id) (simp add: normalized_rules_fixed)
  show "amounts_to_numeric (amount_columns (date_columns ?t) ?t) ?t = ?t"
    unfolding amounts_to_numeric_eq [OF d]
    by (rule map_ran_id) (simp add: normalized_rules_fixed)
qed

text \<open>
  C7. Normalizing is idempotent. For a table with distinct column names, \<open>clean_data\<close>
  returns a new table, and \<open>clean_data\<close> on that table returns a table equal to it, with
  no warning; in particular the rules for empty strings, the identifier, the years and
  the currency amounts leave a normalized table as it is.
\<close>

theorem clean_data_idempotent:
  assumes "df < length (frames w)" and "distinct (columns (frames w ! df))"
  shows "\<exists>a w1 b w2. clean_data P df w = (Inr a, w1) \<and> clean_data P a w1 = (Inr b, w2)
           \<and> frames w2 ! b = frames w1 ! a
           \<and> clean_table P (frames w ! df) = Inr (frames w1 ! a, [])
           \<and> clean_table P (frames w1 ! a) = Inr (frames w1 ! a, [])
           \<and> replace_empty_strings (frames w1 ! a) = frames w1 ! a
           \<and> id_to_str (frames w1 ! a) = frames w1 ! a
           \<and> years_to_numeric (frames w1 ! a) = frames w1 ! a
           \<and> amounts_to_numeric (amount_columns (date_columns (frames w1 ! a)) (frames w1 ! a))
                (frames w1 ! a) = frames w1 ! a"
proof -
  let ?t = "normalized P (frames w ! df)"
  let ?a = "length (frames w)"
  let ?w1 = "w\<lparr>frames := frames w @ [?t], warnings := warnings w @ []\<rparr>"
  let ?w2 = "?w1\<lparr>frames := frames ?w1 @ [?t], warnings := warnings ?w1 @ []\<rparr>"
  have c1: "clean_table P (frames w ! df) = Inr (?t, [])"
    using assms(2) by (rule clean_table_normalized)
  have d: "distinct (columns ?t)" using assms(2) by (rule distinct_normalized)
  have c2: "clean_table P ?t = Inr (?t, [])"
    using clean_table_normalized [OF d, of P] by (simp add: normalized_idem)
  have r1: "clean_data P df w = (Inr ?a, ?w1)"
    using clean_data_result [OF assms(1), of P] c1 by simp
  have a: "?a < length (frames ?w1)" "frames ?w1 ! ?a = ?t" by simp_all
  have r2: "clean_data P ?a ?w1 = (Inr (length (frames ?w1)), ?w2)"
    using clean_data_result [OF a(1), of P] c2 a(2) by simp
  have "frames ?w2 ! (length (frames ?w1)) = ?t" by (simp add: nth_append)
  with r1 r2 a c1 c2 normalized_rules_noop [OF assms(2), of P] show ?thesis
    by (intro exI [of _ ?a] exI [of _ ?w1] exI [of _ "length (frames ?w1)"] exI [of _ ?w2]) simp
qed

theorem clean_data_idempotent_witness:
  "0 < length (frames example_world) \<and> distinct (columns (frames example_world ! 0))
   \<and> (\<exists>a w1 b w2. clean_data no_dates 0 example_world = (Inr a, w1)
         \<and> clean_data no_dates a w1 = (Inr b, w2) \<and> frames w2 ! b = frames w1 ! a)"
proof -
  have h1: "0 < length (frames example_world)" by (simp add: example_world_def)
  have h2: "distinct (columns (frames example_world ! 0))"
    by (simp add: example_world_def columns_def)
  from clean_data_idempotent [OF h1 h2, of no_dates] h1 h2 show ?thesis by blast
qed

subsection \<open>Decade labels across the consumers\<close>

lemma show_2020: "show_int 2020 = ''2020''"
  by code_simp

lemma decade_2020s: "2020 \<le> n \<Longrightarrow> n < 2030 \<Longrightarrow> (n::int) div 10 * 10 = 2020"
  by presburger

lemma label_int:
  assumes "1950 \<le> n" "n < 2030"
  shows "get_decade P (IntV n) = Inr (show_int (n div 10 * 10) @ ''s'')"
    and "get_decade_label P (IntV n) = show_int (n div 10 * 10) @ ''s''"
  using assms decade_2020s [of n]
  by (auto simp: get_decade_def get_decade_label_def isna_def capped_decade_def decade_of_int_def
      show_2020)

lemma label_float:
  assumes "1950 \<le> r" "r < 2030"
  shows "get_decade P (FloatV r) = Inr (show_int (\<lfloor>r / 10\<rfloor> * 10) @ ''s'')"
    and "get_decade_label P (FloatV r) = show_int (\<lfloor>r / 10\<rfloor> * 10) @ ''s''"
proof -
  have fl: "\<lfloor>r / 10\<rfloor> = \<lfloor>r\<rfloor> div 10"
    using floor_divide_real_eq_div [of 10 r] by simp
  have tr: "trunc r = \<lfloor>r\<rfloor>" using assms by (simp add: trunc_def)
  have "\<lfloor>r / 10\<rfloor> * 10 = 2020" if "2020 \<le> r"
  proof -
    from that assms have "2020 \<le> \<lfloor>r\<rfloor>" "\<lfloor>r\<rfloor> < 2030" by (simp_all add: le_floor_iff floor_less_iff)
    then show ?thesis unfolding fl by (rule decade_2020s)
  qed
  then show "get_decade P (FloatV r) = Inr (show_int (\<lfloor>r / 10\<rfloor> * 10) @ ''s'')"
    using assms
    by (auto simp: get_decade_def isna_def capped_decade_real decade_bucket_def show_2020)
  show "get_decade_label P (FloatV r) = show_int (\<lfloor>r / 10\<rfloor> * 10) @ ''s''"
    by (simp add: get_decade_label_def isna_def decade_of_int_def tr fl)
qed

lemma clean_year_only:
  "clean_table P [(''CL YR'', c)]
     = Inr ([(''CL YR'', to_numeric (replace_empty c)),
             (''Decade'', decade_column (to_numeric (replace_empty c)))], [])"
proof -
  have "distinct (columns [(''CL YR'', c)])" by (simp add: columns_def)
  then have "clean_table P [(''CL YR'', c)] = Inr (normalized P [(''CL YR'', c)], [])"
    by (rule clean_table_normalized)
  moreover have "\<not> is_giving ''CL YR'' x" "\<not> is_giving ''Decade'' x" for x
    using fixed_names by (auto simp: is_giving_def)
  ultimately show ?thesis
    by (simp add: normalized_def AList.map_ran_def normalize_fixed with_decade_def assign_def
        fill_state_def columns_def with_total_def giving_frame_def)
qed

lemma comparable_decade_in_int64:
  "1950 \<le> n \<Longrightarrow> n < 2030 \<Longrightarrow> wrap64 (n div 10 * 10) = n div 10 * 10"
  by (intro wrap64_id) (simp add: in_int64_def, presburger)

lemma label_cell_float:
  assumes "comparable_year y"
  shows "(case num_value (to_num y) of None \<Rightarrow> ''Unknown''
          | Some x \<Rightarrow> show_int (\<lfloor>x / 10\<rfloor> * 10) @ ''s'') = get_decade_label P y"
proof (cases y)
  case NaN
  then show ?thesis by (simp add: get_decade_label_def isna_def)
next
  case (IntV n)
  have "\<lfloor>real_of_int n / 10\<rfloor> = n div 10"
    using floor_divide_of_int_eq [of n 10, where ?'a = real] by simp
  with IntV assms show ?thesis by (simp add: comparable_year_def label_int)
next
  case (FloatV r)
  with assms show ?thesis by (simp add: comparable_year_def label_float)
qed (use assms in \<open>simp_all add: comparable_year_def\<close>)

lemma label_cell_int:
  assumes "comparable_year y" "is_nint (to_num y)"
  shows "show_int (wrap64 ((nint (to_num y) div 10) * 10)) @ ''s'' = get_decade_label P y"
  using assms
  by (cases y) (simp_all add: comparable_year_def label_int comparable_decade_in_int64)

lemma comparable_not_empty: "comparable_year y \<Longrightarrow> y \<noteq> StrV []"
  by (auto simp: comparable_year_def)

lemma labels_of_years:
  assumes "dtype_of c \<noteq> datetime64" and "list_all comparable_year (cells_of c)"
  shows "decade_labels (to_numeric (replace_empty c)) = map (get_decade_label P) (cells_of c)"
proof (cases c)
  case (Int64 ns)
  with assms(2) show ?thesis
    by (auto simp: list_all_iff comparable_year_def label_int comparable_decade_in_int64)
next
  case (Float64 rs)
  have "(case r of None \<Rightarrow> ''Unknown'' | Some x \<Rightarrow> show_int (\<lfloor>x / 10\<rfloor> * 10) @ ''s'')
        = get_decade_label P (case r of None \<Rightarrow> NaN | Some x \<Rightarrow> FloatV x)" if "r \<in> set rs" for r
  proof (cases r)
    case None
    then show ?thesis by (simp add: get_decade_label_def isna_def)
  next
    case (Some x)
    with that assms(2) Float64 have "comparable_year (FloatV x)"
      by (force simp: list_all_iff)
    with Some show ?thesis by (simp add: comparable_year_def label_float)
  qed
  with Float64 show ?thesis by simp
next
  case (Datetime ts)
  with assms(1) show ?thesis by simp
next
  case (Object cs)
  from assms(2) Object have cmp: "comparable_year y" if "y \<in> set cs" for y
    using that by (simp add: list_all_iff)
  then have re: "StrV [] \<notin> set cs"
    using comparable_not_empty by auto
  show ?thesis
  proof (cases "list_all is_nint (map to_num cs)")
    case True
    then have "show_int (wrap64 ((nint (to_num y) div 10) * 10)) @ ''s'' = get_decade_label P y"
      if "y \<in> set cs" for y
      using that cmp label_cell_int by (simp add: list_all_iff)
    with True Object re show ?thesis by (simp add: numeric_column_def comp_def)
  next
    case False
    have "(case num_value (to_num y) of None \<Rightarrow> ''Unknown''
          | Some x \<Rightarrow> show_int (\<lfloor>x / 10\<rfloor> * 10) @ ''s'') = get_decade_label P y" if "y \<in> set cs" for y
      using that cmp label_cell_float by simp
    with False Object re show ?thesis by (simp add: numeric_column_def comp_def)
  qed
qed

lemma labels_agree_cell: "comparable_year y \<Longrightarrow> get_decade P y = Inr (get_decade_label P y)"
proof (cases y)
  case NaN
  then show ?thesis by (simp add: get_decade_def get_decade_label_def isna_def)
next
  case (IntV n)
  assume "comparable_year y"
  with IntV show ?thesis by (simp add: comparable_year_def label_int)
next
  case (FloatV r)
  assume "comparable_year y"
  with FloatV show ?thesis by (simp add: comparable_year_def label_float)
qed (simp_all add: comparable_year_def)

lemma decade_column_of_years:
  assumes "dtype_of c \<noteq> datetime64" and "list_all comparable_year (cells_of c)"
  shows "decade_column (to_numeric (replace_empty c))
       = (if cells_of c = [] then to_numeric (replace_empty c)
          else Object (map StrV (map (get_decade_label P) (cells_of c))))"
proof -
  have "(col_length (to_numeric (replace_empty c)) = 0) = (cells_of c = [])"
    by (cases c) simp_all
  then show ?thesis
    using labels_of_years [OF assms, of P] by (simp add: decade_column_def)
qed

text \<open>
  C4, amended. For every column of year values that is not of datetime type and whose
  values are missing or numeric with \<open>1950 \<le> y < 2030\<close>, the decade labels of the
  attendance analysis, those of the utility function and the \<open>Decade\<close> column that the
  normalizer derives are equal, value by value. (For a column without rows the \<open>Decade\<close>
  column is the year column, without rows as well.)
\<close>

theorem decade_labels_agree:
  "dtype_of c \<noteq> datetime64 \<and> list_all comparable_year (cells_of c) \<longrightarrow>
     map (get_decade P) (cells_of c) = map (\<lambda>y. Inr (get_decade_label P y)) (cells_of c)
     \<and> (\<exists>c'. clean_table P [(''CL YR'', c)]
              = Inr ([(''CL YR'', c'),
                      (''Decade'', if cells_of c = [] then c'
                                   else Object (map StrV (map (get_decade_label P) (cells_of c))))], []))"
proof
  assume a: "dtype_of c \<noteq> datetime64 \<and> list_all comparable_year (cells_of c)"
  then have "map (get_decade P) (cells_of c) = map (\<lambda>y. Inr (get_decade_label P y)) (cells_of c)"
    by (auto simp: list_all_iff labels_agree_cell)
  moreover from a have dc: "decade_column (to_numeric (replace_empty c))
      = (if cells_of c = [] then to_numeric (replace_empty c)
         else Object (map StrV (map (get_decade_label P) (cells_of c))))"
    by (simp add: decade_column_of_years)
  have "clean_table P [(''CL YR'', c)]
      = Inr ([(''CL YR'', to_numeric (replace_empty c)),
              (''Decade'', if cells_of c = [] then to_numeric (replace_empty c)
                           else Object (map StrV (map (get_decade_label P) (cells_of c))))], [])"
    by (simp only: clean_year_only dc)
  ultimately show "map (get_decade P) (cells_of c) = map (\<lambda>y. Inr (get_decade_label P y)) (cells_of c)
     \<and> (\<exists>c'. clean_table P [(''CL YR'', c)]
              = Inr ([(''CL YR'', c'),
                      (''Decade'', if cells_of c = [] then c'
                                   else Object (map StrV (map (get_decade_label P) (cells_of c))))], []))"
    by blast
qed

theorem decade_labels_agree_witness:
  "dtype_of (Object [IntV 1983, NaN, FloatV 2021.5]) \<noteq> datetime64
   \<and> list_all comparable_year (cells_of (Object [IntV 1983, NaN, FloatV 2021.5]))
   \<and> map (get_decade_label no_dates) [IntV 1983, NaN, FloatV 2021.5] = [''1980s'', ''Unknown'', ''2020s'']
   \<and> map (get_decade no_dates) [IntV 1983, NaN, FloatV 2021.5]
       = [Inr ''1980s'', Inr ''Unknown'', Inr ''2020s'']
   \<and> (\<exists>c'. clean_table no_dates [(''CL YR'', Object [IntV 1983, NaN, FloatV 2021.5])]
            = Inr ([(''CL YR'', c'),
                    (''Decade'', Object [StrV ''1980s'', StrV ''Unknown'', StrV ''2020s''])], []))"
proof -
  let ?c = "Object [IntV 1983, NaN, FloatV 2021.5]"
  have h1: "dtype_of ?c \<noteq> datetime64" by simp
  have h2: "list_all comparable_year (cells_of ?c)" by (simp add: comparable_year_def)
  have g: "map (get_decade_label no_dates) [IntV 1983, NaN, FloatV 2021.5]
      = [''1980s'', ''Unknown'', ''2020s'']"
    by code_simp
  from decade_labels_agree [of ?c no_dates] h1 h2 g show ?thesis by simp
qed

text \<open>
  C4, as stated, fails: for 1949 the attendance analysis answers "Pre-1950s", the utility
  function and the normalizer "1940s"; for 2035 the attendance analysis answers "2020s"
  and the utility function "2030s".
\<close>

theorem decade_labels_differ:
  "get_decade no_dates (IntV 1949) = Inr ''Pre-1950s''
   \<and> get_decade_label no_dates (IntV 1949) = ''1940s''
   \<and> clean_table no_dates [(''CL YR'', Int64 [1949])]
        = Inr ([(''CL YR'', Int64 [1949]), (''Decade'', Object [StrV ''1940s''])], [])
   \<and> get_decade no_dates (IntV 2035) = Inr ''2020s''
   \<and> get_decade_label no_dates (IntV 2035) = ''2030s''"
  by code_simp

subsection \<open>Total giving and the state, on examples\<close>

theorem total_all_giving_row_sum_witness:
  "distinct (columns example_gifts) \<and> list_all (\<lambda>(n, c). col_length c = 2) example_gifts
   \<and> clean_table no_dates example_gifts = Inr (example_gifts_clean, [])
   \<and> giving_frame example_gifts_clean \<noteq> []
   \<and> (\<exists>tot. map_of example_gifts_clean ''Total_All_Giving'' = Some tot \<and> length (amounts tot) = 2
         \<and> (\<forall>i<2. amounts tot ! i
                = row_total (giving_frame example_gifts_clean)
                    (\<Sum>(n, c)\<leftarrow>giving_frame example_gifts_clean. amounts c ! i))
         \<and> 0 \<le> amounts tot ! 0)
   \<and> giving_frame example_gifts_clean
       = [(''FY21 Gifts'', Float64 [Some 1, None]), (''FY22 Gifts'', Int64 [2, 3])]
   \<and> 0 \<le> amounts (Float64 [Some 1, None]) ! 0 \<and> 0 \<le> amounts (Int64 [2, 3]) ! 0
   \<and> (\<Sum>(n, c)\<leftarrow>giving_frame example_gifts_clean. amounts c ! 0) < 2 ^ 63
   \<and> py_in ''Pledge'' ''Pledge Gift''
   \<and> (\<exists>t'. clean_table no_dates (assign ''Pledge Gift'' (Int64 [100, 100]) example_gifts) = Inr (t', [])
         \<and> map_of t' ''Total_All_Giving'' = map_of example_gifts_clean ''Total_All_Giving'')
   \<and> py_in ''Gift'' ''Gift Day'' \<and> map_of example_gifts ''Gift Day'' = Some (Datetime example_day)
   \<and> (\<exists>t'. clean_table no_dates (assign ''Gift Day'' (Datetime [None, None]) example_gifts) = Inr (t', [])
         \<and> map_of t' ''Total_All_Giving'' = map_of example_gifts_clean ''Total_All_Giving'')"
proof -
  have h1: "distinct (columns example_gifts)" by code_simp
  have h2: "list_all (\<lambda>(n, c). col_length c = 2) example_gifts" by code_simp
  have h3: "clean_table no_dates example_gifts = Inr (example_gifts_clean, [])" by code_simp
  have g: "giving_frame example_gifts_clean \<noteq> []" by code_simp
  have gf: "giving_frame example_gifts_clean
      = [(''FY21 Gifts'', Float64 [Some 1, None]), (''FY22 Gifts'', Int64 [2, 3])]"
    by code_simp
  have pos: "\<forall>(n, c)\<in>set (giving_frame example_gifts_clean). 0 \<le> amounts c ! 0"
    unfolding gf by (simp add: amounts_def)
  have small: "(\<Sum>(n, c)\<leftarrow>giving_frame example_gifts_clean. amounts c ! 0) < 2 ^ 63"
    unfolding gf by (simp add: amounts_def)
  have p: "py_in ''Pledge'' ''Pledge Gift''" by code_simp
  have d: "py_in ''Gift'' ''Gift Day'' \<and> map_of example_gifts ''Gift Day'' = Some (Datetime example_day)"
    by code_simp
  have pos': "0 \<le> amounts (Float64 [Some 1, None]) ! 0 \<and> 0 \<le> amounts (Int64 [2, 3]) ! 0"
    by (simp add: amounts_def)
  from total_all_giving_row_sum [OF h1 h2 h3] g p d pos small
  have "(\<exists>tot. map_of example_gifts_clean ''Total_All_Giving'' = Some tot \<and> length (amounts tot) = 2
         \<and> (\<forall>i<2. amounts tot ! i
                = row_total (giving_frame example_gifts_clean)
                    (\<Sum>(n, c)\<leftarrow>giving_frame example_gifts_clean. amounts c ! i))
         \<and> 0 \<le> amounts tot ! 0)
   \<and> (\<exists>t'. clean_table no_dates (assign ''Pledge Gift'' (Int64 [100, 100]) example_gifts) = Inr (t', [])
         \<and> map_of t' ''Total_All_Giving'' = map_of example_gifts_clean ''Total_All_Giving'')
   \<and> (\<exists>t'. clean_table no_dates (assign ''Gift Day'' (Datetime [None, None]) example_gifts) = Inr (t', [])
         \<and> map_of t' ''Total_All_Giving'' = map_of example_gifts_clean ''Total_All_Giving'')"
    by (simp only: simp_thms) force
  with g gf pos' small p d h1 h2 h3 show ?thesis by blast
qed

theorem clean_data_frame_witness:
  "0 < length (frames example_world)
   \<and> frames (snd (clean_data no_dates 0 example_world)) ! 0 = frames example_world ! 0
   \<and> fst (clean_data no_dates 0 example_world) = Inr 1"
proof -
  have h: "0 < length (frames example_world)" by (simp add: example_world_def)
  have r: "fst (clean_data no_dates 0 example_world) = Inr 1" by code_simp
  have "take (length (frames example_world)) (frames (snd (clean_data no_dates 0 example_world)))
      = frames example_world"
    using clean_data_frame [of example_world no_dates 0] by blast
  then have "take (length (frames example_world)) (frames (snd (clean_data no_dates 0 example_world))) ! 0
      = frames example_world ! 0" by simp
  with h have "frames (snd (clean_data no_dates 0 example_world)) ! 0 = frames example_world ! 0"
    by simp
  with h r show ?thesis by blast
qed

text \<open>
  C2, as stated, fails: a gift column may hold a negative amount (a refund, a
  correction), and the total of a row is then negative. And the sum of two \<open>int64\<close>
  columns is a 64-bit sum: two amounts of \<open>2^62\<close> give the total \<open>-2^63\<close>.
\<close>

theorem negative_total:
  "clean_table no_dates [(''Gift'', Int64 [- 5])]
     = Inr ([(''Gift'', Int64 [- 5]), (''Total_All_Giving'', Int64 [- 5])], [])
   \<and> clean_table no_dates
        [(''Gift'', Int64 [4611686018427387904]), (''Gifts'', Int64 [4611686018427387904])]
     = Inr ([(''Gift'', Int64 [4611686018427387904]), (''Gifts'', Int64 [4611686018427387904]),
             (''Total_All_Giving'', Int64 [- 9223372036854775808])], [])
   \<and> in_int64 4611686018427387904"
  by code_simp

subsection \<open>The scenario of the identifiers, and currency amounts\<close>





lemma example_amounts:
  "parse_number ''12345.67'' = NFloat 12345.67 \<and> parse_number ''N/A'' = NNull"
  by (simp add: parse_number_def is_digit_def is_blank_def read_nat_def digit_val_def)

lemma example_symbols:
  "without_symbols ''$12,345.67'' = ''12345.67'' \<and> without_symbols ''N/A'' = ''N/A''
   \<and> without_symbols ''nan'' = ''nan''"
  by (simp add: without_symbols_def)

lemma example_names:
  "is_amount_name ''Gift''" "is_giving ''Gift'' (Float64 xs)" "\<not> is_giving ''Total_All_Giving'' c"
  by (simp_all add: is_amount_name_def is_date_name_def is_giving_def)

lemma currency_examples:
  "clean_table P [(''Gift'', Object [StrV ''$12,345.67'', StrV ''N/A'', StrV ''''])]
     = Inr ([(''Gift'', Float64 [Some 12345.67, None, None]),
             (''Total_All_Giving'', Float64 [Some 12345.67, Some 0, Some 0])], [])"
  by (simp add: clean_table_normalized columns_def normalized_def AList.map_ran_def
      amount_column_parsed example_names example_amounts example_symbols parse_missing
      numeric_column_def with_decade_def fill_state_def is_number_def
      with_total_def giving_frame_def assign_def total_column_def amounts_def skipna_def)

text \<open>
  C8, amended. In a table with distinct column names, a text (object) column whose name
  contains "Gift" or "Ask" and neither "Date" nor "date" (all tests are case-sensitive)
  becomes a numeric column: every text cell is stripped of "$" and "," and parsed as a
  number, an unparsable text becoming missing, and a missing cell stays missing. So
  "$12,345.67" becomes 12345.67, and "N/A" and the empty string become missing, not zero.
\<close>

theorem currency_amounts:
  "(distinct (columns df) \<and> map_of df n = Some (Object cs)
      \<and> (py_in ''Gift'' n \<or> py_in ''Ask'' n) \<and> \<not> py_in ''Date'' n \<and> \<not> py_in ''date'' n
      \<and> clean_table P df = Inr (t, msgs)
    \<longrightarrow> (\<exists>c vs. map_of t n = Some c \<and> dtype_of c \<noteq> object \<and> float_values c = Some vs
           \<and> length vs = length cs
           \<and> (\<forall>i<length cs. \<forall>s. cs ! i = StrV s \<longrightarrow>
                 vs ! i = num_value (parse_number (without_symbols s)))
           \<and> (\<forall>i<length cs. cs ! i = NaN \<longrightarrow> vs ! i = None)))
   \<and> without_symbols ''$12,345.67'' = ''12345.67''
   \<and> num_value (parse_number ''12345.67'') = Some 12345.67
   \<and> num_value (parse_number (without_symbols ''N/A'')) = None
   \<and> num_value (parse_number (without_symbols '''')) = None
   \<and> clean_table P [(''Gift'', Object [StrV ''$12,345.67'', StrV ''N/A'', StrV ''''])]
       = Inr ([(''Gift'', Float64 [Some 12345.67, None, None]),
               (''Total_All_Giving'', Float64 [Some 12345.67, Some 0, Some 0])], [])"
  using currency_parsing [of df n cs P t msgs] currency_examples [of P]
  by (simp add: example_amounts example_symbols parse_missing without_symbols_def)

theorem currency_amounts_witness:
  "distinct (columns [(''Ask Amount'', Object [StrV ''$1,000'', NaN])])
   \<and> map_of [(''Ask Amount'', Object [StrV ''$1,000'', NaN])] ''Ask Amount'' = Some (Object [StrV ''$1,000'', NaN])
   \<and> py_in ''Ask'' ''Ask Amount'' \<and> \<not> py_in ''Date'' ''Ask Amount'' \<and> \<not> py_in ''date'' ''Ask Amount''
   \<and> clean_table no_dates [(''Ask Amount'', Object [StrV ''$1,000'', NaN])]
       = Inr ([(''Ask Amount'', Float64 [Some 1000, None])], [])
   \<and> (\<exists>c vs. map_of [(''Ask Amount'', Float64 [Some 1000, None])] ''Ask Amount'' = Some c
         \<and> float_values c = Some vs \<and> length vs = 2
         \<and> vs ! 0 = num_value (parse_number (without_symbols ''$1,000'')) \<and> vs ! 1 = None)"
proof -
  let ?df = "[(''Ask Amount'', Object [StrV ''$1,000'', NaN])]"
  let ?t = "[(''Ask Amount'', Float64 [Some 1000, None])]"
  have h1: "distinct (columns ?df)" by (simp add: columns_def)
  have h2: "map_of ?df ''Ask Amount'' = Some (Object [StrV ''$1,000'', NaN])" by simp
  have h3: "py_in ''Ask'' ''Ask Amount'' \<and> \<not> py_in ''Date'' ''Ask Amount'' \<and> \<not> py_in ''date'' ''Ask Amount''"
    by simp
  have h4: "clean_table no_dates ?df = Inr (?t, [])" by code_simp
  from currency_amounts [of ?df "''Ask Amount''" "[StrV ''$1,000'', NaN]" no_dates ?t "[]"] h1 h2 h3 h4
  obtain c vs where *: "map_of ?t ''Ask Amount'' = Some c" "float_values c = Some vs"
    "length vs = length [StrV ''$1,000'', NaN]"
    "\<forall>i<length [StrV ''$1,000'', NaN]. \<forall>s. [StrV ''$1,000'', NaN] ! i = StrV s \<longrightarrow>
                 vs ! i = num_value (parse_number (without_symbols s))"
    "\<forall>i<length [StrV ''$1,000'', NaN]. [StrV ''$1,000'', NaN] ! i = NaN \<longrightarrow> vs ! i = None"
    by blast
  from *(4) have a: "vs ! 0 = num_value (parse_number (without_symbols ''$1,000''))" by simp
  from *(5) have b: "vs ! 1 = None" by simp
  from * a b h1 h2 h3 h4 show ?thesis by auto
qed

text \<open>
  C8, as stated, fails: the test on the column name is case-sensitive. A text column named
  "gift" contains "Gift" case-insensitively and is not a date column, and its
  "$12,345.67" is left as text.
\<close>

theorem lower_case_gift_column_not_parsed:
  "clean_table no_dates [(''gift'', Object [StrV ''$12,345.67''])]
     = Inr ([(''gift'', Object [StrV ''$12,345.67''])], [])
   \<and> py_in (lower ''Gift'') (lower ''gift'') \<and> \<not> py_in (lower ''Date'') (lower ''gift'')"
  by code_simp


end
